theory Spec2Isabelle
  imports Complex_Main "HOL-Library.AList" "HOL-Library.Log_Nat"
begin

section \<open>Errors and outcomes\<close>

text \<open>
  Python exceptions raised by the modelled code, together with the error kinds the
  specification names (section 7). \<open>LifecycleViolation\<close>, \<open>DuplicateIdentity\<close> and
  \<open>UnknownIdentity\<close> are the specification's names; no function under \<^verbatim>\<open>src/\<close>
  raises \<open>LifecycleViolation\<close>.
\<close>

datatype error =
    IndexError
  | AttributeError
  | ValueError
  | ZeroDivisionError
  | OverflowError
  | LifecycleViolation
  | DuplicateIdentity
  | UnknownIdentity
  | ExternalError

section \<open>\<^verbatim>\<open>fedlab_core/communicator/memory.py\<close>: the base \<open>Memory\<close>\<close>

text \<open>
  \<^verbatim>\<open>
  class Memory:
      @staticmethod
      def initialize(*args, **kwargs): pass
      @staticmethod
      def compensate(tensor, *args, **kwargs): return tensor
      @staticmethod
      def update(*args, **kwargs): pass
      @staticmethod
      def state_dict(): return None
  \<close>
  The methods are static: there is no object state. Each is modelled as a function from
  its arguments and the state of the program (\<open>'w\<close>, anything a method could have touched)
  to its return value and the state afterwards. Python's \<open>None\<close> is \<open>None\<close>.
\<close>

definition Memory_initialize :: "'args \<Rightarrow> 'w \<Rightarrow> 'r option \<times> 'w" where
  "Memory_initialize args w = (None, w)"

definition Memory_compensate :: "'t \<Rightarrow> 'args \<Rightarrow> 'w \<Rightarrow> 't \<times> 'w" where
  "Memory_compensate tensor args w = (tensor, w)"

definition Memory_update :: "'args \<Rightarrow> 'w \<Rightarrow> 'r option \<times> 'w" where
  "Memory_update args w = (None, w)"

definition Memory_state_dict :: "'w \<Rightarrow> 'r option \<times> 'w" where
  "Memory_state_dict w = (None, w)"

section \<open>Python's numbers\<close>

text \<open>
  \<open>AverageMeter\<close> computes with Python's built-in numbers, so their arithmetic is part of
  what the class does. A Python \<open>float\<close> is an IEEE 754 binary64 value: a finite double,
  an infinity or a NaN. \<open>Finite q\<close> is the finite double of value \<open>q\<close>; the two zeros are
  one value here, since Python compares them equal, raises on a division by either, and
  \<open>+\<close>, \<open>*\<close> and \<open>/\<close> give results that differ at most in the sign of a zero.
  A rational \<open>q\<close> is the value of a double when \<open>round64 q = Finite q\<close>.
\<close>

datatype float64 = Finite rat | PInf | NInf | NaN

definition pow2 :: "int \<Rightarrow> rat" where
  "pow2 e = (if 0 \<le> e then 2 ^ nat e else 1 / 2 ^ nat (- e))"

text \<open>
  The binary exponent of a positive rational \<open>x\<close>, the \<open>e\<close> with \<open>pow2 e \<le> x < pow2 (e + 1)\<close>
  (\<open>floor_log2_bounds\<close> below), from the bit lengths of its numerator and denominator.
\<close>

definition floor_log2 :: "rat \<Rightarrow> int" where
  "floor_log2 x =
     (case quotient_of x of (p, q) \<Rightarrow>
        (let d = bitlen p - bitlen q in if pow2 d \<le> x then d else d - 1))"

definition round_half_even :: "rat \<Rightarrow> int" where
  "round_half_even q =
     (let f = \<lfloor>q\<rfloor>; d = q - of_int f
      in if d < 1 / 2 then f else if 1 / 2 < d then f + 1 else if even f then f else f + 1)"

text \<open>
  Rounding to the nearest double, ties to the even significand: 53 significant bits
  down to the exponent \<open>-1022\<close>, below which the spacing stays \<open>pow2 (- 1074)\<close> (subnormal
  numbers); a result of magnitude \<open>pow2 1024\<close> or more is an infinity.
\<close>

definition round64 :: "rat \<Rightarrow> float64" where
  "round64 x =
     (if x = 0 then Finite 0
      else (let e = max (floor_log2 \<bar>x\<bar>) (- 1022);
                ulp = pow2 (e - 52);
                y = of_int (round_half_even (x / ulp)) * ulp
            in if pow2 1024 \<le> \<bar>y\<bar> then (if 0 < x then PInf else NInf) else Finite y))"

definition signed_inf :: "bool \<Rightarrow> float64" where
  "signed_inf positive = (if positive then PInf else NInf)"

fun is_positive :: "float64 \<Rightarrow> bool" where
  "is_positive (Finite a) = (0 < a)"
| "is_positive PInf = True"
| "is_positive NInf = False"
| "is_positive NaN = False"

text \<open>
  The float operations \<open>+\<close>, \<open>*\<close> and \<open>/\<close> (the last for a divisor that is not zero):
  the exact result, rounded. An overflow gives an infinity, not an exception.
\<close>

fun fadd :: "float64 \<Rightarrow> float64 \<Rightarrow> float64" where
  "fadd NaN y = NaN"
| "fadd x NaN = NaN"
| "fadd (Finite a) (Finite b) = round64 (a + b)"
| "fadd PInf NInf = NaN"
| "fadd NInf PInf = NaN"
| "fadd (Finite a) y = y"
| "fadd x y = x"

fun fmul :: "float64 \<Rightarrow> float64 \<Rightarrow> float64" where
  "fmul NaN y = NaN"
| "fmul x NaN = NaN"
| "fmul (Finite a) (Finite b) = round64 (a * b)"
| "fmul x y =
     (if x = Finite 0 \<or> y = Finite 0 then NaN
      else signed_inf (is_positive x = is_positive y))"

fun fdiv :: "float64 \<Rightarrow> float64 \<Rightarrow> float64" where
  "fdiv NaN y = NaN"
| "fdiv x NaN = NaN"
| "fdiv (Finite a) (Finite b) = round64 (a / b)"
| "fdiv (Finite a) y = Finite 0"
| "fdiv x (Finite b) = signed_inf (is_positive x = (0 < b))"
| "fdiv x y = NaN"

text \<open>
  The arguments of \<open>update\<close> are Python numbers: an \<open>int\<close> (unbounded; \<open>n\<close> defaults to
  the int \<open>1\<close>) or a \<open>float\<close>.
\<close>

datatype number = PyInt int | PyFloat float64

text \<open>
  An operation on two ints is exact; with a float operand, an int operand is first
  converted to a float, rounded to the nearest double, and Python raises
  \<open>OverflowError\<close> when it is too large for one.
\<close>

fun to_float :: "number \<Rightarrow> error + float64" where
  "to_float (PyFloat x) = Inr x"
| "to_float (PyInt i) =
     (case round64 (of_int i) of Finite y \<Rightarrow> Inr (Finite y) | _ \<Rightarrow> Inl OverflowError)"

definition float_op ::
  "(float64 \<Rightarrow> float64 \<Rightarrow> float64) \<Rightarrow> number \<Rightarrow> number \<Rightarrow> error + number" where
  "float_op f a b =
     (case to_float a of
        Inl e \<Rightarrow> Inl e
      | Inr x \<Rightarrow> (case to_float b of Inl e \<Rightarrow> Inl e | Inr y \<Rightarrow> Inr (PyFloat (f x y))))"

fun py_add :: "number \<Rightarrow> number \<Rightarrow> error + number" where
  "py_add (PyInt a) (PyInt b) = Inr (PyInt (a + b))"
| "py_add a b = float_op fadd a b"

fun py_mul :: "number \<Rightarrow> number \<Rightarrow> error + number" where
  "py_mul (PyInt a) (PyInt b) = Inr (PyInt (a * b))"
| "py_mul a b = float_op fmul a b"

text \<open>
  True division \<open>a / b\<close> always gives a float and raises \<open>ZeroDivisionError\<close> when the
  divisor is zero (the int \<open>0\<close> or the float \<open>0.0\<close>), whatever the dividend.
\<close>

fun py_truediv :: "number \<Rightarrow> number \<Rightarrow> error + number" where
  "py_truediv (PyInt a) (PyInt b) =
     (if b = 0 then Inl ZeroDivisionError
      else (case round64 (of_int a / of_int b) of
              Finite y \<Rightarrow> Inr (PyFloat (Finite y))
            | _ \<Rightarrow> Inl OverflowError))"
| "py_truediv a b =
     (case to_float a of
        Inl e \<Rightarrow> Inl e
      | Inr x \<Rightarrow>
          (case to_float b of
             Inl e \<Rightarrow> Inl e
           | Inr y \<Rightarrow> if y = Finite 0 then Inl ZeroDivisionError else Inr (PyFloat (fdiv x y))))"

fun is_zero :: "number \<Rightarrow> bool" where
  "is_zero (PyInt i) = (i = 0)"
| "is_zero (PyFloat x) = (x = Finite 0)"

fun is_float :: "number \<Rightarrow> bool" where
  "is_float (PyFloat x) = True"
| "is_float (PyInt i) = False"

section \<open>\<^verbatim>\<open>fedlab/utils/functional.py\<close>: \<open>AverageMeter\<close>\<close>

text \<open>
  \<^verbatim>\<open>
  class AverageMeter(object):
      def __init__(self): self.reset()
      def reset(self):
          self.val = 0.0; self.avg = 0.0; self.sum = 0.0; self.count = 0.
      def update(self, val, n=1):
          self.val = val
          self.sum += val * n
          self.count += n
          self.avg = self.sum / self.count
  \<close>
  Each statement of \<open>update\<close> is one step; an exception leaves the fields as the
  statements before it set them.
\<close>

record AverageMeter =
  val :: number
  avg :: number
  sum' :: number
  count :: number

definition reset :: "AverageMeter \<Rightarrow> AverageMeter" where
  "reset m = m\<lparr>val := PyFloat (Finite 0), avg := PyFloat (Finite 0),
               sum' := PyFloat (Finite 0), count := PyFloat (Finite 0)\<rparr>"

definition AverageMeter_init :: AverageMeter where
  "AverageMeter_init =
     reset \<lparr>val = PyFloat (Finite 0), avg = PyFloat (Finite 0), sum' = PyFloat (Finite 0),
            count = PyFloat (Finite 0)\<rparr>"

definition update ::
  "AverageMeter \<Rightarrow> number \<Rightarrow> number \<Rightarrow> (error \<times> AverageMeter) + AverageMeter" where
  "update m v n =
     (let m1 = m\<lparr>val := v\<rparr> in
      case py_mul v n of
        Inl e \<Rightarrow> Inl (e, m1)
      | Inr p \<Rightarrow>
          (case py_add (sum' m1) p of
             Inl e \<Rightarrow> Inl (e, m1)
           | Inr s \<Rightarrow>
               (let m2 = m1\<lparr>sum' := s\<rparr> in
                case py_add (count m2) n of
                  Inl e \<Rightarrow> Inl (e, m2)
                | Inr c \<Rightarrow>
                    (let m3 = m2\<lparr>count := c\<rparr> in
                     case py_truediv (sum' m3) (count m3) of
                       Inl e \<Rightarrow> Inl (e, m3)
                     | Inr a \<Rightarrow> Inr (m3\<lparr>avg := a\<rparr>)))))"

text \<open>A sequence of calls \<open>update(val, n)\<close>; the first exception ends it.\<close>

fun updates ::
  "AverageMeter \<Rightarrow> (number \<times> number) list \<Rightarrow> (error \<times> AverageMeter) + AverageMeter" where
  "updates m [] = Inr m"
| "updates m ((v, n) # calls) =
     (case update m v n of Inl e \<Rightarrow> Inl e | Inr m' \<Rightarrow> updates m' calls)"

text \<open>
  What the property of \<open>AverageMeter\<close> speaks of, in Python's arithmetic: the sum
  \<open>start + x\<^sub>1 + ... + x\<^sub>k\<close> evaluated from left to right, and the products
  \<open>val * n\<close> of a sequence of calls. Both raise what an operation raises.
\<close>

fun py_sum :: "number \<Rightarrow> number list \<Rightarrow> error + number" where
  "py_sum start [] = Inr start"
| "py_sum start (x # xs) =
     (case py_add start x of Inl e \<Rightarrow> Inl e | Inr s \<Rightarrow> py_sum s xs)"

fun py_products :: "(number \<times> number) list \<Rightarrow> error + number list" where
  "py_products [] = Inr []"
| "py_products ((v, n) # calls) =
     (case py_mul v n of
        Inl e \<Rightarrow> Inl e
      | Inr p \<Rightarrow> (case py_products calls of Inl e \<Rightarrow> Inl e | Inr ps \<Rightarrow> Inr (p # ps)))"

section \<open>Transport, envelopes and the network manager\<close>

text \<open>
  Modelled from the spec: \<open>MessageCode\<close> (\<^verbatim>\<open>fedlab_utils/message_code.py\<close> is not among
  the sources): the protocol verbs \<open>ParameterRequest\<close>, \<open>ParameterUpdate\<close>, \<open>Exit\<close>, "plus
  room for deployment-specific control verbs".
\<close>

datatype MessageCode = ParameterRequest | ParameterUpdate | Exit | Control nat

text \<open>
  What a receive returns and what the queues hold: the tuple
  \<open>(sender, message_code, payload)\<close>. A payload is a list of tensors; the type \<open>'b\<close> of
  tensors is left open.
\<close>

type_synonym 'b package = "int \<times> MessageCode \<times> 'b list"

text \<open>
  Modelled from the spec: \<open>Package\<close> (\<^verbatim>\<open>communicator/processor.py\<close> is not among the
  sources): an envelope is a message code and an ordered sequence of buffers.
  \<open>Package(message_code=c)\<close> is \<open>Package c []\<close>, \<open>Package(message_code=c, content=t)\<close>
  is \<open>Package c [t]\<close>, and \<open>append_tensor_list\<close> appends buffers in order.
\<close>

datatype 'b Package = Package MessageCode "'b list"

text \<open>Modelled from the spec: \<open>Package.append_tensor_list\<close>, which appends the buffers
  to the envelope's ordered sequence.\<close>

fun append_tensor_list :: "'b Package \<Rightarrow> 'b list \<Rightarrow> 'b Package" where
  "append_tensor_list (Package message_code content) tensor_list =
     Package message_code (content @ tensor_list)"

text \<open>
  The calls a process makes on its collaborators, in the order it makes them: the log
  against which the properties of sends and receives are stated.
\<close>

datatype 'b event =
    Init_connection
  | Recv "int option" "'b package"
  | Recv_blocked "int option"
  | Send "'b list" MessageCode int
  | Train 'b

text \<open>
  Modelled from the spec: the transport group primitive (\<open>DistNetwork\<close> and
  \<open>PackageProcessor\<close> are not among the sources), "assumed reliable, ordered per sender,
  blocking". \<open>pending\<close> are the packages the group will deliver to this process, in
  arrival order. A receive with \<open>src = Some r\<close> takes the first pending package of
  sender \<open>r\<close>; with \<open>src = None\<close> it takes the first pending package; it blocks for
  ever when there is none.
\<close>

record 'b DistNetwork =
  world_size :: int
  pending :: "'b package list"

text \<open>
  Modelled from the spec: the handler (trainer; its class is not among the sources), which
  "exposes \<open>train\<close> and a mutable \<open>clientCountInTotal\<close> field": its model and the field
  the connector assigns. \<open>train\<close> itself is a parameter of the functions that call it.
\<close>

record 'm backend_handler =
  model :: 'm
  client_num_in_total :: int

text \<open>
  Modelled from the spec: the network participant base \<open>NetworkManager\<close>
  (\<^verbatim>\<open>network_manager.py\<close> is not among the sources), with the two fields the sources
  use: \<open>self._network\<close> and \<open>self._handler\<close> (which may be \<open>None\<close>). \<open>trace\<close> is the
  log of events.
\<close>

record ('b, 'm) network_manager =
  network :: "'b DistNetwork"
  handler :: "'m backend_handler option"
  trace :: "'b event list"

text \<open>How a call ends when it does not return: an exception, a receive or a queue read
  that blocks for ever, or \<open>exit(0)\<close>.\<close>

datatype 's stop = Raised error 's | Blocked 's | Exited 's

fun final :: "'s stop \<Rightarrow> 's" where
  "final (Raised e s) = s"
| "final (Blocked s) = s"
| "final (Exited s) = s"

text \<open>Modelled from the spec: the first pending package of sender \<open>src\<close>, and the
  packages that stay pending.\<close>

fun take_from :: "int \<Rightarrow> 'b package list \<Rightarrow> ('b package \<times> 'b package list) option" where
  "take_from src [] = None"
| "take_from src (p # ps) =
     (if fst p = src then Some (p, ps)
      else (case take_from src ps of
              None \<Rightarrow> None
            | Some (q, qs) \<Rightarrow> Some (q, p # qs)))"

text \<open>Modelled from the spec: the package a receive takes, "\<open>src: Rank | any\<close>".\<close>

definition take_package ::
  "int option \<Rightarrow> 'b package list \<Rightarrow> ('b package \<times> 'b package list) option" where
  "take_package src ps =
     (case src of
        None \<Rightarrow> (case ps of [] \<Rightarrow> None | p # ps' \<Rightarrow> Some (p, ps'))
      | Some r \<Rightarrow> take_from r ps)"

text \<open>Modelled from the spec: \<open>recv(src) \<rightarrow> (senderRank, MessageCode, payload)\<close>
  (\<open>DistNetwork.recv\<close>); \<open>None\<close> is returned when the receive blocks for ever.\<close>

definition recv ::
  "int option \<Rightarrow> ('b, 'm, 'z) network_manager_scheme
     \<Rightarrow> 'b package option \<times> ('b, 'm, 'z) network_manager_scheme" where
  "recv src s =
     (case take_package src (pending (network s)) of
        None \<Rightarrow> (None, s\<lparr>trace := trace s @ [Recv_blocked src]\<rparr>)
      | Some (p, ps) \<Rightarrow>
          (Some p, s\<lparr>network := (network s)\<lparr>pending := ps\<rparr>,
                      trace := trace s @ [Recv src p]\<rparr>))"

text \<open>Modelled from the spec: \<open>send(content, dst)\<close> (\<open>DistNetwork.send\<close>), which
  always completes.\<close>

definition send ::
  "'b list \<Rightarrow> MessageCode \<Rightarrow> int \<Rightarrow> ('b, 'm, 'z) network_manager_scheme
     \<Rightarrow> ('b, 'm, 'z) network_manager_scheme" where
  "send content message_code dst s = s\<lparr>trace := trace s @ [Send content message_code dst]\<rparr>"

text \<open>Modelled from the spec: \<open>PackageProcessor.recv_package\<close>, the same receive.\<close>

definition recv_package ::
  "int option \<Rightarrow> ('b, 'm, 'z) network_manager_scheme
     \<Rightarrow> 'b package option \<times> ('b, 'm, 'z) network_manager_scheme" where
  "recv_package src s = recv src s"

text \<open>Modelled from the spec: \<open>PackageProcessor.send_package\<close>, the same send, of a
  \<open>Package\<close>.\<close>

fun send_package ::
  "'b Package \<Rightarrow> int \<Rightarrow> ('b, 'm, 'z) network_manager_scheme
     \<Rightarrow> ('b, 'm, 'z) network_manager_scheme" where
  "send_package (Package message_code content) dst s = send content message_code dst s"

text \<open>Modelled from the spec: \<open>initConnection()\<close>
  (\<open>DistNetwork.init_network_connection\<close>); only the call is logged.\<close>

definition init_network_connection ::
  "('b, 'm, 'z) network_manager_scheme \<Rightarrow> ('b, 'm, 'z) network_manager_scheme" where
  "init_network_connection s = s\<lparr>trace := trace s @ [Init_connection]\<rparr>"

section \<open>The Coordinator\<close>

text \<open>
  Modelled from the spec: the \<open>Coordinator\<close> (\<^verbatim>\<open>fedlab/core/coordinator.py\<close> is not among
  the sources). It "owns a mapping Rank \<rightarrow> set-of-LogicalId", here the ranks in the
  order they were built in, each with its LogicalIds.
\<close>

record Coordinator =
  rank_ids :: "(int \<times> int list) list"

text \<open>
  Modelled from the spec: \<open>build(handshakeResults: mapping Rank \<rightarrow> LogicalId)\<close>
  "populates the mapping; fails with \<open>DuplicateIdentity\<close> if two ranks report overlapping
  LogicalIds".
\<close>

definition build :: "(int \<times> int) list \<Rightarrow> error + Coordinator" where
  "build handshakeResults =
     (if distinct (map snd handshakeResults)
      then Inr \<lparr>rank_ids = map (\<lambda>(rank, i). (rank, [i])) handshakeResults\<rparr>
      else Inl DuplicateIdentity)"

text \<open>Modelled from the spec: \<open>total()\<close>, the "count of distinct LogicalIds known".\<close>

definition total :: "'z Coordinator_scheme \<Rightarrow> int" where
  "total co = int (length (remdups (concat (map snd (rank_ids co)))))"

text \<open>Modelled from the spec: the reverse lookup LogicalId \<rightarrow> Rank.\<close>

definition owner :: "'z Coordinator_scheme \<Rightarrow> int \<Rightarrow> int option" where
  "owner co i = map_option fst (find (\<lambda>(rank, ids). i \<in> set ids) (rank_ids co))"

text \<open>
  Modelled from the spec: \<open>mapIdList(ids) \<rightarrow> mapping Rank \<rightarrow> sequence of LogicalId\<close>
  "groups requested LogicalIds by their owning Rank, preserving the relative order within
  each group. Fails with \<open>UnknownIdentity\<close> if any id is not present." The result is a
  Python dictionary: an association list in insertion order, here the order in which the
  ranks first occur.
\<close>

definition add_to_group :: "int \<Rightarrow> int \<Rightarrow> (int \<times> int list) list \<Rightarrow> (int \<times> int list) list" where
  "add_to_group rank i map_dict =
     (case map_of map_dict rank of
        None \<Rightarrow> map_dict @ [(rank, [i])]
      | Some ids \<Rightarrow> AList.update rank (ids @ [i]) map_dict)"

text \<open>Modelled from the spec: the grouping loop of \<open>mapIdList\<close>, one id after the
  other.\<close>

fun group_ids ::
  "'z Coordinator_scheme \<Rightarrow> int list \<Rightarrow> (int \<times> int list) list
     \<Rightarrow> error + (int \<times> int list) list" where
  "group_ids co [] map_dict = Inr map_dict"
| "group_ids co (i # ids) map_dict =
     (case owner co i of
        None \<Rightarrow> Inl UnknownIdentity
      | Some rank \<Rightarrow> group_ids co ids (add_to_group rank i map_dict))"

text \<open>Modelled from the spec: \<open>mapIdList\<close>, the grouping started from the empty
  dictionary.\<close>

definition map_id_list ::
  "'z Coordinator_scheme \<Rightarrow> int list \<Rightarrow> error + (int \<times> int list) list" where
  "map_id_list co ids = group_ids co ids []"

section \<open>\<^verbatim>\<open>fedlab/core/server/hierarchical/connector.py\<close>\<close>

text \<open>
  \<open>Connector\<close>: a network manager with the two message queues. \<open>watching_queue\<close>
  records that \<open>main_loop\<close> has started the thread that runs \<open>deal_queue\<close>; the
  interleaving of the two threads is not modelled. \<open>ClientConnector\<close> adds the
  coordinator, \<open>None\<close> until \<open>setup\<close> has built it.
\<close>

record ('b, 'm) Connector = "('b, 'm) network_manager" +
  mq_read :: "'b package list"
  mq_write :: "'b package list"
  watching_queue :: bool

record ('b, 'm, 'c) ClientConnector = "('b, 'm) Connector" +
  coordinator :: "'c option"

text \<open>
  \<open>ClientConnector.setup\<close>:
  \<^verbatim>\<open>
  rank_client_id_map = {}
  for rank in range(1, self._network.world_size):
      _, _, content = self._network.recv(src=rank)
      rank_client_id_map[rank] = content[0].item()
  self.coordinator = Coordinator(rank_client_id_map)
  if self._handler is not None:
      self._handler.client_num_in_total = self.coordinator.total
  \<close>
  The tensor method \<open>item\<close>, the constructor \<open>Coordinator\<close> and its attribute \<open>total\<close>
  are parameters; \<open>item\<close> and the constructor may raise.
\<close>

fun recv_identities ::
  "('b \<Rightarrow> error + 'v) \<Rightarrow> int list \<Rightarrow> (int \<times> 'v) list
     \<Rightarrow> ('b, 'm, 'z) network_manager_scheme
     \<Rightarrow> ('b, 'm, 'z) network_manager_scheme stop
         + ((int \<times> 'v) list \<times> ('b, 'm, 'z) network_manager_scheme)" where
  "recv_identities item [] rank_client_id_map s = Inr (rank_client_id_map, s)"
| "recv_identities item (rank # ranks) rank_client_id_map s =
     (case recv (Some rank) s of
        (None, s') \<Rightarrow> Inl (Blocked s')
      | (Some (_, _, content), s') \<Rightarrow>
          (case content of
             [] \<Rightarrow> Inl (Raised IndexError s')
           | c0 # _ \<Rightarrow>
               (case item c0 of
                  Inl e \<Rightarrow> Inl (Raised e s')
                | Inr v \<Rightarrow>
                    recv_identities item ranks (AList.update rank v rank_client_id_map) s')))"

definition ClientConnector_setup ::
  "('b \<Rightarrow> error + 'v) \<Rightarrow> ((int \<times> 'v) list \<Rightarrow> error + 'c) \<Rightarrow> ('c \<Rightarrow> int)
     \<Rightarrow> ('b, 'm, 'c, 'z) ClientConnector_scheme
     \<Rightarrow> ('b, 'm, 'c, 'z) ClientConnector_scheme stop + ('b, 'm, 'c, 'z) ClientConnector_scheme" where
  "ClientConnector_setup item Coordinator' total' c =
     (case recv_identities item [1 .. world_size (network c) - 1] [] c of
        Inl st \<Rightarrow> Inl st
      | Inr (rank_client_id_map, c1) \<Rightarrow>
          (case Coordinator' rank_client_id_map of
             Inl e \<Rightarrow> Inl (Raised e c1)
           | Inr co \<Rightarrow>
               (let c2 = c1\<lparr>coordinator := Some co\<rparr>
                in case handler c2 of
                     None \<Rightarrow> Inr c2
                   | Some h \<Rightarrow> Inr (c2\<lparr>handler := Some (h\<lparr>client_num_in_total := total' co\<rparr>)\<rparr>))))"

text \<open>The loops below terminate because a receive that returns takes a package off the
  pending ones, and a queue read takes an item off the queue.\<close>

lemma take_from_length:
  "take_from src ps = Some (q, qs) \<Longrightarrow> Suc (length qs) = length ps"
  by (induction ps arbitrary: q qs) (auto split: if_splits option.splits)

lemma recv_pending:
  "recv src s = (Some p, s') \<Longrightarrow> length (pending (network s')) < length (pending (network s))"
  by (auto simp: recv_def take_package_def dest: take_from_length
      split: option.splits list.splits)

text \<open>
  \<open>ClientConnector.main_loop\<close>:
  \<^verbatim>\<open>
  self.setup()
  watching_queue = threading.Thread(target=self.deal_queue)
  watching_queue.start()
  while True:
      sender, message_code, payload = self._network.recv()
      self.mq_write.put((sender, message_code, payload))
  \<close>
  The loop never returns: it ends blocked, when no package is pending any more.
\<close>

function ClientConnector_recv_loop ::
  "('b, 'm, 'z) Connector_scheme \<Rightarrow> ('b, 'm, 'z) Connector_scheme stop" where
  "ClientConnector_recv_loop c =
     (case recv None c of
        (None, c') \<Rightarrow> Blocked c'
      | (Some (sender, message_code, payload), c') \<Rightarrow>
          ClientConnector_recv_loop (c'\<lparr>mq_write := mq_write c' @ [(sender, message_code, payload)]\<rparr>))"
  by pat_completeness auto
termination
  by (relation "measure (\<lambda>c. length (pending (network c)))") (auto dest: recv_pending [OF sym])

definition ClientConnector_main_loop ::
  "('b \<Rightarrow> error + 'v) \<Rightarrow> ((int \<times> 'v) list \<Rightarrow> error + 'c) \<Rightarrow> ('c \<Rightarrow> int)
     \<Rightarrow> ('b, 'm, 'c, 'z) ClientConnector_scheme
     \<Rightarrow> ('b, 'm, 'c, 'z) ClientConnector_scheme stop" where
  "ClientConnector_main_loop item Coordinator' total' c =
     (case ClientConnector_setup item Coordinator' total' c of
        Inl st \<Rightarrow> st
      | Inr c1 \<Rightarrow> ClientConnector_recv_loop (c1\<lparr>watching_queue := True\<rparr>))"

text \<open>
  \<open>ClientConnector.deal_queue\<close>:
  \<^verbatim>\<open>
  while True:
      sender, message_code, payload = self.mq_read.get()
      id_list, payload = payload[0], payload[1:]
      rank_dict = self.coordinator.map_id_list(id_list)
      for rank, values in rank_dict.items():
          id_list = torch.Tensor(values).to(torch.int32)
          self._network.send(content=[id_list] + payload,
                             message_code=message_code, dst=rank)
  \<close>
  \<open>map_id_list\<close> (of the coordinator) and the conversion
  \<open>torch.Tensor(values).to(torch.int32)\<close> are parameters. \<open>rank_dict\<close> is a Python
  dictionary, an association list in insertion order. \<open>mq_read.get()\<close> blocks on an
  empty queue.
\<close>

fun send_each ::
  "('v \<Rightarrow> 'b) \<Rightarrow> MessageCode \<Rightarrow> 'b list \<Rightarrow> (int \<times> 'v) list
     \<Rightarrow> ('b, 'm, 'z) network_manager_scheme \<Rightarrow> ('b, 'm, 'z) network_manager_scheme" where
  "send_each to_int32 message_code payload [] s = s"
| "send_each to_int32 message_code payload ((rank, values) # items) s =
     send_each to_int32 message_code payload items
       (send (to_int32 values # payload) message_code rank s)"

lemma mq_read_send_each:
  "mq_read (send_each to_int32 message_code payload rank_dict c) = mq_read c"
  by (induction rank_dict arbitrary: c) (auto simp: send_def)

function ClientConnector_deal_queue ::
  "('c \<Rightarrow> 'b \<Rightarrow> error + (int \<times> 'v) list) \<Rightarrow> ('v \<Rightarrow> 'b)
     \<Rightarrow> ('b, 'm, 'c, 'z) ClientConnector_scheme
     \<Rightarrow> ('b, 'm, 'c, 'z) ClientConnector_scheme stop" where
  "ClientConnector_deal_queue map_id_list' to_int32 c =
     (case mq_read c of
        [] \<Rightarrow> Blocked c
      | (sender, message_code, payload) # q \<Rightarrow>
          (case payload of
             [] \<Rightarrow> Raised IndexError (c\<lparr>mq_read := q\<rparr>)
           | id_list # payload' \<Rightarrow>
               (case coordinator c of
                  None \<Rightarrow> Raised AttributeError (c\<lparr>mq_read := q\<rparr>)
                | Some co \<Rightarrow>
                    (case map_id_list' co id_list of
                       Inl e \<Rightarrow> Raised e (c\<lparr>mq_read := q\<rparr>)
                     | Inr rank_dict \<Rightarrow>
                         ClientConnector_deal_queue map_id_list' to_int32
                           (send_each to_int32 message_code payload' rank_dict
                              (c\<lparr>mq_read := q\<rparr>))))))"
  by pat_completeness auto
termination
  by (relation "measure (\<lambda>(f, g, c). length (mq_read c))")
     (auto simp: mq_read_send_each)

text \<open>
  \<open>ServerConnector.main_loop\<close> and \<open>ServerConnector.deal_queue\<close>:
  \<^verbatim>\<open>
  def main_loop(self, *args, **kwargs):
      watching_queue = threading.Thread(target=self.deal_queue)
      watching_queue.start()
      while True:
          sender, message_code, payload = PackageProcessor.recv_package()
          self.mq_write.put((sender, message_code, payload))

  def deal_queue(self):
      while True:
          sender, message_code, payload = self.mq_read.get()
          self._network.send(content=payload, message_code=message_code, dst=0)
  \<close>
\<close>

function ServerConnector_recv_loop ::
  "('b, 'm, 'z) Connector_scheme \<Rightarrow> ('b, 'm, 'z) Connector_scheme stop" where
  "ServerConnector_recv_loop c =
     (case recv_package None c of
        (None, c') \<Rightarrow> Blocked c'
      | (Some (sender, message_code, payload), c') \<Rightarrow>
          ServerConnector_recv_loop (c'\<lparr>mq_write := mq_write c' @ [(sender, message_code, payload)]\<rparr>))"
  by pat_completeness auto
termination
  by (relation "measure (\<lambda>c. length (pending (network c)))")
     (auto simp: recv_package_def dest: recv_pending [OF sym])

definition ServerConnector_main_loop ::
  "('b, 'm, 'z) Connector_scheme \<Rightarrow> ('b, 'm, 'z) Connector_scheme stop" where
  "ServerConnector_main_loop c = ServerConnector_recv_loop (c\<lparr>watching_queue := True\<rparr>)"

function ServerConnector_deal_queue ::
  "('b, 'm, 'z) Connector_scheme \<Rightarrow> ('b, 'm, 'z) Connector_scheme stop" where
  "ServerConnector_deal_queue c =
     (case mq_read c of
        [] \<Rightarrow> Blocked c
      | (sender, message_code, payload) # q \<Rightarrow>
          ServerConnector_deal_queue (send payload message_code 0 (c\<lparr>mq_read := q\<rparr>)))"
  by pat_completeness auto
termination
  by (relation "measure (\<lambda>c. length (mq_read c))") (auto simp: send_def)

section \<open>\<^verbatim>\<open>fedlab_core/client/manager.py\<close>\<close>

text \<open>
  \<open>ClientPassiveManager\<close> is a network manager and nothing more (its logger is not
  modelled). The handler's \<open>train\<close>, which may raise, and
  \<open>SerializationTool.serialize_model\<close> are parameters.
  \<^verbatim>\<open>
  def on_receive(self, sender_rank, message_code, payload):
      s_parameters = payload[0]
      self._handler.train(model_parameters=s_parameters)

  def synchronize(self):
      model_params = SerializationTool.serialize_model(self._handler.model)
      pack = Package(message_code=MessageCode.ParameterUpdate, content=model_params)
      PackageProcessor.send_package(pack, dst=0)
  \<close>
\<close>

definition ClientPassiveManager_on_receive ::
  "('b \<Rightarrow> 'm backend_handler \<Rightarrow> error + 'm backend_handler)
     \<Rightarrow> int \<Rightarrow> MessageCode \<Rightarrow> 'b list
     \<Rightarrow> ('b, 'm, 'z) network_manager_scheme
     \<Rightarrow> ('b, 'm, 'z) network_manager_scheme stop + ('b, 'm, 'z) network_manager_scheme" where
  "ClientPassiveManager_on_receive train sender_rank message_code payload s =
     (case payload of
        [] \<Rightarrow> Inl (Raised IndexError s)
      | s_parameters # _ \<Rightarrow>
          (case handler s of
             None \<Rightarrow> Inl (Raised AttributeError s)
           | Some h \<Rightarrow>
               (case train s_parameters h of
                  Inl e \<Rightarrow> Inl (Raised e (s\<lparr>trace := trace s @ [Train s_parameters]\<rparr>))
                | Inr h' \<Rightarrow>
                    Inr (s\<lparr>handler := Some h', trace := trace s @ [Train s_parameters]\<rparr>))))"

definition ClientPassiveManager_synchronize ::
  "('m \<Rightarrow> 'b) \<Rightarrow> ('b, 'm, 'z) network_manager_scheme
     \<Rightarrow> ('b, 'm, 'z) network_manager_scheme stop + ('b, 'm, 'z) network_manager_scheme" where
  "ClientPassiveManager_synchronize serialize_model s =
     (case handler s of
        None \<Rightarrow> Inl (Raised AttributeError s)
      | Some h \<Rightarrow>
          (let model_params = serialize_model (model h);
               pack = Package ParameterUpdate [model_params]
           in Inr (send_package pack 0 s)))"

lemma ClientPassiveManager_on_receive_network:
  "ClientPassiveManager_on_receive train sender_rank message_code payload s = Inr s'
     \<Longrightarrow> network s' = network s"
  by (auto simp: ClientPassiveManager_on_receive_def split: list.splits option.splits sum.splits)

lemma ClientPassiveManager_synchronize_network:
  "ClientPassiveManager_synchronize serialize_model s = Inr s' \<Longrightarrow> network s' = network s"
  by (auto simp: ClientPassiveManager_synchronize_def send_def split: option.splits)

text \<open>
  \<open>ClientPassiveManager.run\<close>:
  \<^verbatim>\<open>
  self._network.init_network_connection()
  while True:
      sender_rank, message_code, payload = PackageProcessor.recv_package(src=0)
      if message_code == MessageCode.Exit:
          exit(0)
      else:
          self.on_receive(sender_rank, message_code, payload)
      self.synchronize()
  \<close>
\<close>

function ClientPassiveManager_loop ::
  "('b \<Rightarrow> 'm backend_handler \<Rightarrow> error + 'm backend_handler) \<Rightarrow> ('m \<Rightarrow> 'b)
     \<Rightarrow> ('b, 'm, 'z) network_manager_scheme \<Rightarrow> ('b, 'm, 'z) network_manager_scheme stop" where
  "ClientPassiveManager_loop train serialize_model s =
     (case recv_package (Some 0) s of
        (None, s1) \<Rightarrow> Blocked s1
      | (Some (sender_rank, message_code, payload), s1) \<Rightarrow>
          (if message_code = Exit then Exited s1
           else (case ClientPassiveManager_on_receive train sender_rank message_code payload s1 of
                   Inl st \<Rightarrow> st
                 | Inr s2 \<Rightarrow>
                     (case ClientPassiveManager_synchronize serialize_model s2 of
                        Inl st \<Rightarrow> st
                      | Inr s3 \<Rightarrow> ClientPassiveManager_loop train serialize_model s3))))"
  by pat_completeness auto
termination
  by (relation "measure (\<lambda>(t, z, s). length (pending (network s)))")
     (auto simp: recv_package_def dest!: recv_pending [OF sym]
        ClientPassiveManager_on_receive_network ClientPassiveManager_synchronize_network)

definition ClientPassiveManager_run ::
  "('b \<Rightarrow> 'm backend_handler \<Rightarrow> error + 'm backend_handler) \<Rightarrow> ('m \<Rightarrow> 'b)
     \<Rightarrow> ('b, 'm, 'z) network_manager_scheme \<Rightarrow> ('b, 'm, 'z) network_manager_scheme stop" where
  "ClientPassiveManager_run train serialize_model s =
     ClientPassiveManager_loop train serialize_model (init_network_connection s)"

text \<open>
  \<open>ClientActiveManager\<close> adds \<open>epochs\<close> and \<open>model_gen_time\<close> (\<open>None\<close> at construction).
  \<^verbatim>\<open>
  def on_receive(self, sender_rank, message_code, payload):
      s_parameters = payload[0]
      self.model_gen_time = payload[1]
      self._handler.train(epoch=self.epochs, model_parameters=s_parameters)

  def synchronize(self):
      model_params = SerializationTool.serialize_model(self._handler.model)
      pack = Package(message_code=MessageCode.ParameterUpdate)
      pack.append_tensor_list([model_params, self.model_gen_time])
      PackageProcessor.send_package(pack, dst=0)

  def request_model(self):
      pack = Package(message_code=MessageCode.ParameterRequest)
      PackageProcessor.send_package(pack, dst=0)
  \<close>
  A package holds tensors: appending \<open>model_gen_time\<close> while it still is \<open>None\<close> is taken
  to raise.
\<close>

record ('b, 'm, 'e) ClientActiveManager = "('b, 'm) network_manager" +
  epochs :: 'e
  model_gen_time :: "'b option"

definition ClientActiveManager_on_receive ::
  "('e \<Rightarrow> 'b \<Rightarrow> 'm backend_handler \<Rightarrow> error + 'm backend_handler)
     \<Rightarrow> int \<Rightarrow> MessageCode \<Rightarrow> 'b list
     \<Rightarrow> ('b, 'm, 'e, 'z) ClientActiveManager_scheme
     \<Rightarrow> ('b, 'm, 'e, 'z) ClientActiveManager_scheme stop
         + ('b, 'm, 'e, 'z) ClientActiveManager_scheme" where
  "ClientActiveManager_on_receive train sender_rank message_code payload s =
     (case payload of
        [] \<Rightarrow> Inl (Raised IndexError s)
      | s_parameters # payload' \<Rightarrow>
          (case payload' of
             [] \<Rightarrow> Inl (Raised IndexError s)
           | gen_time # _ \<Rightarrow>
               (let s1 = s\<lparr>model_gen_time := Some gen_time\<rparr>
                in case handler s1 of
                     None \<Rightarrow> Inl (Raised AttributeError s1)
                   | Some h \<Rightarrow>
                       (case train (epochs s1) s_parameters h of
                          Inl e \<Rightarrow> Inl (Raised e (s1\<lparr>trace := trace s1 @ [Train s_parameters]\<rparr>))
                        | Inr h' \<Rightarrow>
                            Inr (s1\<lparr>handler := Some h',
                                    trace := trace s1 @ [Train s_parameters]\<rparr>)))))"

definition ClientActiveManager_synchronize ::
  "('m \<Rightarrow> 'b) \<Rightarrow> ('b, 'm, 'e, 'z) ClientActiveManager_scheme
     \<Rightarrow> ('b, 'm, 'e, 'z) ClientActiveManager_scheme stop
         + ('b, 'm, 'e, 'z) ClientActiveManager_scheme" where
  "ClientActiveManager_synchronize serialize_model s =
     (case handler s of
        None \<Rightarrow> Inl (Raised AttributeError s)
      | Some h \<Rightarrow>
          (let model_params = serialize_model (model h);
               pack = Package ParameterUpdate []
           in case model_gen_time s of
                None \<Rightarrow> Inl (Raised ValueError s)
              | Some gen_time \<Rightarrow>
                  Inr (send_package (append_tensor_list pack [model_params, gen_time]) 0 s)))"

definition request_model ::
  "('b, 'm, 'e, 'z) ClientActiveManager_scheme \<Rightarrow> ('b, 'm, 'e, 'z) ClientActiveManager_scheme" where
  "request_model s = send_package (Package ParameterRequest []) 0 s"

lemma ClientActiveManager_on_receive_network:
  "ClientActiveManager_on_receive train sender_rank message_code payload s = Inr s'
     \<Longrightarrow> network s' = network s"
  by (auto simp: ClientActiveManager_on_receive_def Let_def
      split: list.splits option.splits sum.splits)

lemma ClientActiveManager_synchronize_network:
  "ClientActiveManager_synchronize serialize_model s = Inr s' \<Longrightarrow> network s' = network s"
  by (auto simp: ClientActiveManager_synchronize_def send_def Let_def split: option.splits)

lemma request_model_network: "network (request_model s) = network s"
  by (simp add: request_model_def send_def)

text \<open>
  \<open>ClientActiveManager.run\<close>:
  \<^verbatim>\<open>
  self._network.init_network_connection()
  while True:
      self.request_model()
      sender_rank, message_code, payload = PackageProcessor.recv_package(src=0)
      if message_code == MessageCode.Exit:
          exit(0)
      self.on_receive(sender_rank, message_code, payload)
      self.synchronize()
  \<close>
\<close>

function ClientActiveManager_loop ::
  "('e \<Rightarrow> 'b \<Rightarrow> 'm backend_handler \<Rightarrow> error + 'm backend_handler) \<Rightarrow> ('m \<Rightarrow> 'b)
     \<Rightarrow> ('b, 'm, 'e, 'z) ClientActiveManager_scheme
     \<Rightarrow> ('b, 'm, 'e, 'z) ClientActiveManager_scheme stop" where
  "ClientActiveManager_loop train serialize_model s =
     (case recv_package (Some 0) (request_model s) of
        (None, s1) \<Rightarrow> Blocked s1
      | (Some (sender_rank, message_code, payload), s1) \<Rightarrow>
          (if message_code = Exit then Exited s1
           else (case ClientActiveManager_on_receive train sender_rank message_code payload s1 of
                   Inl st \<Rightarrow> st
                 | Inr s2 \<Rightarrow>
                     (case ClientActiveManager_synchronize serialize_model s2 of
                        Inl st \<Rightarrow> st
                      | Inr s3 \<Rightarrow> ClientActiveManager_loop train serialize_model s3))))"
  by pat_completeness auto
termination
  by (relation "measure (\<lambda>(t, z, s). length (pending (network s)))")
     (auto simp: recv_package_def request_model_network dest!: recv_pending [OF sym]
        ClientActiveManager_on_receive_network ClientActiveManager_synchronize_network)

definition ClientActiveManager_run ::
  "('e \<Rightarrow> 'b \<Rightarrow> 'm backend_handler \<Rightarrow> error + 'm backend_handler) \<Rightarrow> ('m \<Rightarrow> 'b)
     \<Rightarrow> ('b, 'm, 'e, 'z) ClientActiveManager_scheme
     \<Rightarrow> ('b, 'm, 'e, 'z) ClientActiveManager_scheme stop" where
  "ClientActiveManager_run train serialize_model s =
     ClientActiveManager_loop train serialize_model (init_network_connection s)"

text \<open>The loops are unfolded one iteration at a time, by hand.\<close>

declare ClientConnector_recv_loop.simps [simp del]
declare ServerConnector_recv_loop.simps [simp del]
declare ClientConnector_deal_queue.simps [simp del]
declare ServerConnector_deal_queue.simps [simp del]
declare ClientPassiveManager_loop.simps [simp del]
declare ClientActiveManager_loop.simps [simp del]

section \<open>Properties of event logs\<close>

text \<open>The number of sends to a rank in a log.\<close>

fun sends_to :: "int \<Rightarrow> 'b event list \<Rightarrow> nat" where
  "sends_to rank [] = 0"
| "sends_to rank (Send content message_code dst # es) =
     (if dst = rank then 1 else 0) + sends_to rank es"
| "sends_to rank (e # es) = sends_to rank es"

text \<open>Nothing is logged after the receipt of an \<open>Exit\<close>.\<close>

fun exit_is_last :: "'b event list \<Rightarrow> bool" where
  "exit_is_last [] = True"
| "exit_is_last (Recv src (sender, message_code, payload) # es) =
     ((message_code = Exit \<longrightarrow> es = []) \<and> exit_is_last es)"
| "exit_is_last (e # es) = exit_is_last es"

text \<open>
  Every send in the log is a \<open>ParameterUpdate\<close> to rank 0 and comes right after a
  training step (\<open>after_train\<close> tells whether the event before the log was one).
\<close>

fun sends_follow_train :: "bool \<Rightarrow> 'b event list \<Rightarrow> bool" where
  "sends_follow_train after_train [] = True"
| "sends_follow_train after_train (Send content message_code dst # es) =
     (after_train \<and> message_code = ParameterUpdate \<and> dst = 0 \<and> sends_follow_train False es)"
| "sends_follow_train after_train (Train p # es) = sends_follow_train True es"
| "sends_follow_train after_train (e # es) = sends_follow_train False es"

section \<open>Theorems: \<open>Memory\<close>\<close>

text \<open>
  C9. The base \<open>Memory\<close> strategy is the identity: \<open>compensate\<close> returns its tensor
  unchanged whatever the other arguments are; \<open>initialize\<close> and \<open>update\<close> have no
  effect (they return \<open>None\<close> and leave the state as it was); \<open>state_dict()\<close> returns
  \<open>None\<close>.
\<close>

theorem Memory_is_identity:
  "Memory_compensate t args w = (t, w)
   \<and> Memory_initialize args1 w = (None, w)
   \<and> Memory_update args2 w = (None, w)
   \<and> Memory_state_dict w = (None, w)"
  by (simp add: Memory_compensate_def Memory_initialize_def Memory_update_def
      Memory_state_dict_def)

section \<open>Theorems: \<open>AverageMeter\<close>\<close>

subsection \<open>The exponent and the rounding\<close>

lemma pow2_powi: "pow2 e = 2 powi e"
  by (simp add: pow2_def power_int_def inverse_eq_divide power_one_over)

lemma bitlen_powi:
  assumes "0 < p"
  shows "(2 :: rat) powi (bitlen p - 1) \<le> of_int p \<and> of_int p < (2 :: rat) powi (bitlen p)"
proof -
  from bitlen_bounds [OF assms]
  have lo: "2 ^ nat (bitlen p - 1) \<le> p" and hi: "p < 2 ^ nat (bitlen p)" by simp_all
  from assms bitlen_eq_zero_iff [of p] bitlen_nonneg [of p] have pos: "0 < bitlen p"
    by linarith
  have "(2 :: rat) powi (bitlen p - 1) = of_int (2 ^ nat (bitlen p - 1))"
    using pos by (simp add: power_int_def)
  moreover have "(2 :: rat) powi (bitlen p) = of_int (2 ^ nat (bitlen p))"
    using pos by (simp add: power_int_def)
  ultimately show ?thesis
    using lo hi by (metis of_int_le_iff of_int_less_iff)
qed

lemma floor_log2_bounds:
  assumes "0 < x"
  shows "pow2 (floor_log2 x) \<le> x \<and> x < pow2 (floor_log2 x + 1)"
proof -
  obtain p q where pq: "quotient_of x = (p, q)" by (cases "quotient_of x")
  from quotient_of_denom_pos [OF pq] have q: "0 < q" .
  from quotient_of_div [OF pq] have x: "x = of_int p / of_int q" .
  with assms q have p: "0 < p" by (simp add: zero_less_divide_iff)
  let ?d = "bitlen p - bitlen q"
  note bp = bitlen_powi [OF p] and bq = bitlen_powi [OF q]
  have qpos: "(0 :: rat) < of_int q" using q by simp
  have upper: "x < 2 powi (?d + 1)"
  proof -
    have "of_int p < (2 :: rat) powi (bitlen p)" using bp by simp
    also have "\<dots> = 2 powi (?d + 1) * 2 powi (bitlen q - 1)"
      by (simp flip: power_int_add)
    also have "\<dots> \<le> 2 powi (?d + 1) * of_int q"
      using bq by (intro mult_left_mono) simp_all
    finally show ?thesis using qpos by (simp add: x pos_divide_less_eq)
  qed
  have lower: "2 powi (?d - 1) \<le> x"
  proof -
    have "(2 :: rat) powi (?d - 1) * of_int q \<le> 2 powi (?d - 1) * 2 powi (bitlen q)"
      using bq by (intro mult_left_mono) simp_all
    also have "\<dots> = 2 powi (bitlen p - 1)"
      by (simp flip: power_int_add)
    also have "\<dots> \<le> of_int p" using bp by simp
    finally show ?thesis using qpos by (simp add: x pos_le_divide_eq)
  qed
  show ?thesis
  proof (cases "pow2 ?d \<le> x")
    case True
    with upper pq show ?thesis by (simp add: floor_log2_def pow2_powi)
  next
    case False
    with lower pq show ?thesis by (simp add: floor_log2_def pow2_powi)
  qed
qed

lemma floor_log2_unique:
  assumes "pow2 e \<le> x" and "x < pow2 (e + 1)"
  shows "floor_log2 x = e"
proof -
  have "0 < pow2 e" by (simp add: pow2_powi)
  with assms(1) have "0 < x" by simp
  from floor_log2_bounds [OF this]
  have lo: "pow2 (floor_log2 x) \<le> x" and hi: "x < pow2 (floor_log2 x + 1)" by simp_all
  have "\<not> floor_log2 x < e"
  proof
    assume "floor_log2 x < e"
    then have "pow2 (floor_log2 x + 1) \<le> pow2 e"
      by (simp add: pow2_powi power_int_increasing)
    with assms(1) hi show False by simp
  qed
  moreover have "\<not> e < floor_log2 x"
  proof
    assume "e < floor_log2 x"
    then have "pow2 (e + 1) \<le> pow2 (floor_log2 x)"
      by (simp add: pow2_powi power_int_increasing)
    with assms(2) lo show False by simp
  qed
  ultimately show ?thesis by simp
qed

text \<open>Rounding a number whose binary exponent is known.\<close>

lemma round64_exponent:
  assumes "pow2 e \<le> \<bar>x\<bar>" and "\<bar>x\<bar> < pow2 (e + 1)"
  shows "round64 x =
     (let ulp = pow2 (max e (- 1022) - 52);
          y = of_int (round_half_even (x / ulp)) * ulp
      in if pow2 1024 \<le> \<bar>y\<bar> then (if 0 < x then PInf else NInf) else Finite y)"
proof -
  have "0 < pow2 e" by (simp add: pow2_powi)
  with assms(1) have "x \<noteq> 0" by auto
  with floor_log2_unique [OF assms] show ?thesis
    by (simp add: round64_def Let_def)
qed

lemma floor_rat_numeral:
  "\<lfloor>(numeral a :: rat) / numeral b\<rfloor> = numeral a div numeral b"
  using floor_divide_of_int_eq [of "numeral a" "numeral b", where ?'a = rat] by simp

lemmas round64_at = pow2_def round_half_even_def Let_def floor_rat_numeral

text \<open>The roundings that the examples below need.\<close>

lemma round64_0: "round64 0 = Finite 0"
  by (simp add: round64_def)

lemma round64_1: "round64 1 = Finite 1"
  by (simp add: round64_exponent [where e = 0] round64_at)

lemma round64_2: "round64 2 = Finite 2"
  by (simp add: round64_exponent [where e = 1] round64_at)

lemma round64_3: "round64 3 = Finite 3"
  by (simp add: round64_exponent [where e = 1] round64_at)

lemma round64_4: "round64 4 = Finite 4"
  by (simp add: round64_exponent [where e = 2] round64_at)

lemma round64_1e16: "round64 10000000000000000 = Finite 10000000000000000"
  by (simp add: round64_exponent [where e = 53] round64_at)

lemma round64_minus_1e16: "round64 (- 10000000000000000) = Finite (- 10000000000000000)"
  by (simp add: round64_exponent [where e = 53] round64_at)

lemma round64_1e16_plus_1: "round64 10000000000000001 = Finite 10000000000000000"
  by (simp add: round64_exponent [where e = 53] round64_at)

lemma round64_2_1024: "round64 (2 ^ 1024) = PInf"
  by (simp add: round64_exponent [where e = 1024] round64_at)

lemma round64_tenth:
  "round64 (3602879701896397 / 36028797018963968)
     = Finite (3602879701896397 / 36028797018963968)"
  by (simp add: round64_exponent [where e = "- 4"] round64_at)

lemma round64_tenth_times_3:
  "round64 (10808639105689191 / 36028797018963968)
     = Finite (1351079888211149 / 4503599627370496)"
  by (simp add: round64_exponent [where e = "- 2"] round64_at)

lemma round64_sum_1:
  "round64 (1351079888211149 / 4503599627370496)
     = Finite (1351079888211149 / 4503599627370496)"
  by (simp add: round64_exponent [where e = "- 2"] round64_at)

lemma round64_avg_1:
  "round64 (1351079888211149 / 13510798882111488)
     = Finite (7205759403792795 / 72057594037927936)"
  by (simp add: round64_exponent [where e = "- 4"] round64_at)

lemma round64_sum_2:
  "round64 (10358279142952141 / 4503599627370496)
     = Finite (2589569785738035 / 1125899906842624)"
  by (simp add: round64_exponent [where e = 1] round64_at)

lemma round64_avg_2:
  "round64 (2589569785738035 / 4503599627370496)
     = Finite (2589569785738035 / 4503599627370496)"
  by (simp add: round64_exponent [where e = "- 1"] round64_at)

lemmas evaluate = AverageMeter_init_def reset_def update_def float_op_def Let_def
  round64_0 round64_1 round64_2 round64_3 round64_4 round64_1e16 round64_minus_1e16
  round64_1e16_plus_1 round64_tenth_times_3 round64_sum_1 round64_avg_1 round64_sum_2
  round64_avg_2

subsection \<open>The fields after a sequence of updates\<close>

lemma py_add_float:
  "is_float a \<Longrightarrow> py_add a b = Inr s \<Longrightarrow> is_float s"
  by (cases a; cases b) (auto simp: float_op_def split: sum.splits)

lemma py_truediv_float:
  "is_float a \<Longrightarrow> is_float b \<Longrightarrow> \<not> is_zero b \<Longrightarrow> \<exists>q. py_truediv a b = Inr q"
  by (cases a; cases b) auto

lemma update_returns:
  assumes "py_mul v n = Inr p" and "py_add (sum' m) p = Inr s" and "py_add (count m) n = Inr c"
    and "is_float (sum' m)" and "is_float (count m)" and "\<not> is_zero c"
  shows "\<exists>a. py_truediv s c = Inr a
           \<and> update m v n = Inr \<lparr>val = v, avg = a, sum' = s, count = c\<rparr>"
proof -
  from py_add_float [OF assms(4,2)] py_add_float [OF assms(5,3)] assms(6)
  obtain a where "py_truediv s c = Inr a"
    using py_truediv_float by blast
  with assms(1-3) show ?thesis
    by (cases m) (simp add: update_def)
qed

lemma updates_from:
  assumes "\<forall>k \<in> {1..length calls}. \<exists>ps s c.
              py_products (take k calls) = Inr ps
            \<and> py_sum (sum' m) ps = Inr s
            \<and> py_sum (count m) (map snd (take k calls)) = Inr c \<and> \<not> is_zero c"
    and "is_float (sum' m)" and "is_float (count m)"
  shows "\<exists>m' ps. updates m calls = Inr m'
           \<and> py_sum (count m) (map snd calls) = Inr (count m')
           \<and> py_products calls = Inr ps
           \<and> py_sum (sum' m) ps = Inr (sum' m')
           \<and> (calls \<noteq> [] \<longrightarrow> val m' = fst (last calls)
                \<and> py_truediv (sum' m') (count m') = Inr (avg m'))"
  using assms
proof (induction calls arbitrary: m)
  case Nil
  then show ?case by simp
next
  case (Cons call calls)
  obtain v n where call: "call = (v, n)" by (cases call)
  from Cons.prems(1) [rule_format, of 1] call
  obtain p s c where first: "py_mul v n = Inr p" "py_add (sum' m) p = Inr s"
    "py_add (count m) n = Inr c" "\<not> is_zero c"
    by (auto split: sum.splits)
  from update_returns [OF first(1-3) Cons.prems(2,3) first(4)]
  obtain a where a: "py_truediv s c = Inr a"
    and m1: "update m v n = Inr \<lparr>val = v, avg = a, sum' = s, count = c\<rparr>"
    by blast
  let ?m1 = "\<lparr>val = v, avg = a, sum' = s, count = c\<rparr>"
  have rest: "\<forall>k \<in> {1..length calls}. \<exists>ps s' c'.
              py_products (take k calls) = Inr ps
            \<and> py_sum (sum' ?m1) ps = Inr s'
            \<and> py_sum (count ?m1) (map snd (take k calls)) = Inr c' \<and> \<not> is_zero c'"
  proof
    fix k assume "k \<in> {1..length calls}"
    with Cons.prems(1) [rule_format, of "Suc k"] call first
    show "\<exists>ps s' c'. py_products (take k calls) = Inr ps
            \<and> py_sum (sum' ?m1) ps = Inr s'
            \<and> py_sum (count ?m1) (map snd (take k calls)) = Inr c' \<and> \<not> is_zero c'"
      by (auto split: sum.splits)
  qed
  have floats: "is_float (sum' ?m1)" "is_float (count ?m1)"
    using py_add_float [OF Cons.prems(2) first(2)] py_add_float [OF Cons.prems(3) first(3)]
    by simp_all
  from Cons.IH [OF rest floats] obtain m' ps where
    IH: "updates ?m1 calls = Inr m'" "py_sum c (map snd calls) = Inr (count m')"
      "py_products calls = Inr ps" "py_sum s ps = Inr (sum' m')"
      "calls \<noteq> [] \<longrightarrow> val m' = fst (last calls)
         \<and> py_truediv (sum' m') (count m') = Inr (avg m')"
    by auto
  show ?case
  proof (cases "calls = []")
    case True
    with IH(1) have "m' = ?m1" by simp
    with True call first m1 a show ?thesis by simp
  next
    case False
    with IH call first m1 show ?thesis by simp
  qed
qed

lemma py_truediv_nonzero:
  "py_truediv s c = Inr a \<Longrightarrow> \<not> is_zero c"
  by (cases s; cases c) (auto simp: round64_0 split: if_splits sum.splits float64.splits)

lemma update_returned:
  assumes "update m v n = Inr m'"
  shows "\<exists>p s c a. py_mul v n = Inr p \<and> py_add (sum' m) p = Inr s
           \<and> py_add (count m) n = Inr c \<and> py_truediv s c = Inr a
           \<and> m' = \<lparr>val = v, avg = a, sum' = s, count = c\<rparr>"
  using assms by (cases m) (auto simp: update_def Let_def split: sum.splits)

lemma updates_returned:
  assumes "updates m calls = Inr m'"
  shows "\<forall>k \<in> {1..length calls}. \<exists>ps s c.
              py_products (take k calls) = Inr ps
            \<and> py_sum (sum' m) ps = Inr s
            \<and> py_sum (count m) (map snd (take k calls)) = Inr c \<and> \<not> is_zero c"
  using assms
proof (induction calls arbitrary: m)
  case Nil
  then show ?case by simp
next
  case (Cons call calls)
  obtain v n where call: "call = (v, n)" by (cases call)
  from Cons.prems call obtain m1 where m1: "update m v n = Inr m1"
    and rest: "updates m1 calls = Inr m'"
    by (auto split: sum.splits)
  from update_returned [OF m1] obtain p s c a where
    first: "py_mul v n = Inr p" "py_add (sum' m) p = Inr s" "py_add (count m) n = Inr c"
      "py_truediv s c = Inr a" and fields: "sum' m1 = s" "count m1 = c"
    by auto
  note nonzero = py_truediv_nonzero [OF first(4)]
  show ?case
  proof
    fix k assume k: "k \<in> {1..length (call # calls)}"
    show "\<exists>ps s c.
              py_products (take k (call # calls)) = Inr ps
            \<and> py_sum (sum' m) ps = Inr s
            \<and> py_sum (count m) (map snd (take k (call # calls))) = Inr c \<and> \<not> is_zero c"
    proof (cases "k = 1")
      case True
      with call first nonzero show ?thesis by simp
    next
      case False
      with k obtain j where j: "k = Suc j" "j \<in> {1..length calls}"
        by (cases k) auto
      from Cons.IH [OF rest, rule_format, OF j(2)] fields
      obtain ps s' c' where "py_products (take j calls) = Inr ps" "py_sum s ps = Inr s'"
        "py_sum c (map snd (take j calls)) = Inr c'" "\<not> is_zero c'"
        by auto
      with call first j(1) show ?thesis by simp
    qed
  qed
qed

text \<open>
  C10, as the claim states it, fails, in three ways. A first call \<open>update(5, 0)\<close> after
  construction leaves \<open>count\<close> at \<open>0.0\<close> and the division raises \<open>ZeroDivisionError\<close>;
  \<open>val\<close> has been assigned, \<open>avg\<close> has not. The calls \<open>update(1, 1e16)\<close>,
  \<open>update(1, 1)\<close>, \<open>update(1, -1e16)\<close> raise the same at the third, although the sums
  of the \<open>n\<close> arguments are \<open>10 ^ 16\<close>, \<open>10 ^ 16 + 1\<close> and \<open>1\<close>, none of them zero: the
  float sum \<open>1e16 + 1\<close> is \<open>1e16\<close>, so that \<open>count\<close> is \<open>0.0\<close> at the end, not \<open>1\<close>. And
  \<open>update(1, 2 ** 1024)\<close> raises \<open>OverflowError\<close> when the product, an int, is added to
  the float \<open>sum\<close>.
\<close>

theorem AverageMeter_update_raises:
  "update AverageMeter_init (PyInt 5) (PyInt 0)
     = Inl (ZeroDivisionError,
            \<lparr>val = PyInt 5, avg = PyFloat (Finite 0), sum' = PyFloat (Finite 0),
             count = PyFloat (Finite 0)\<rparr>)
   \<and> updates AverageMeter_init
       [(PyInt 1, PyFloat (Finite (10 ^ 16))), (PyInt 1, PyInt 1),
        (PyInt 1, PyFloat (Finite (- (10 ^ 16))))]
     = Inl (ZeroDivisionError,
            \<lparr>val = PyInt 1, avg = PyFloat (Finite 1), sum' = PyFloat (Finite 0),
             count = PyFloat (Finite 0)\<rparr>)
   \<and> update AverageMeter_init (PyInt 1) (PyInt (2 ^ 1024))
     = Inl (OverflowError,
            \<lparr>val = PyInt 1, avg = PyFloat (Finite 0), sum' = PyFloat (Finite 0),
             count = PyFloat (Finite 0)\<rparr>)"
  using round64_2_1024 by (simp add: evaluate)

text \<open>
  C10, amended. \<open>reset\<close> sets \<open>val\<close>, \<open>avg\<close>, \<open>sum\<close> and \<open>count\<close> to \<open>0.0\<close>. After
  \<open>reset\<close> (or construction), every call of a non-empty sequence of calls
  \<open>update(val, n)\<close> on ints and floats returns exactly when, up to every call, the
  products \<open>val * n\<close>, their sum and the sum of the \<open>n\<close>, each computed from \<open>0.0\<close> and
  from left to right in Python's arithmetic, raise nothing (no int is too large for a
  float) and the sum of the \<open>n\<close> is not zero. When every call has returned, \<open>count\<close> is
  that sum of the \<open>n\<close>, \<open>sum\<close> is that sum of the \<open>val * n\<close> (float sums, each
  addition rounded, not the exact ones), \<open>val\<close> is the last \<open>val\<close> and \<open>avg\<close> is
  \<open>sum / count\<close>.
\<close>

theorem AverageMeter_invariant:
  assumes "calls \<noteq> []"
  shows "((\<exists>m'. updates (reset m) calls = Inr m') \<longleftrightarrow>
          (\<forall>k \<in> {1..length calls}. \<exists>ps s c.
              py_products (take k calls) = Inr ps
            \<and> py_sum (PyFloat (Finite 0)) ps = Inr s
            \<and> py_sum (PyFloat (Finite 0)) (map snd (take k calls)) = Inr c
            \<and> \<not> is_zero c))
       \<and> (\<forall>m'. updates (reset m) calls = Inr m' \<longrightarrow>
            (\<exists>ps. py_sum (PyFloat (Finite 0)) (map snd calls) = Inr (count m')
                \<and> py_products calls = Inr ps
                \<and> py_sum (PyFloat (Finite 0)) ps = Inr (sum' m')
                \<and> val m' = fst (last calls)
                \<and> py_truediv (sum' m') (count m') = Inr (avg m')))
       \<and> reset m = \<lparr>val = PyFloat (Finite 0), avg = PyFloat (Finite 0),
                     sum' = PyFloat (Finite 0), count = PyFloat (Finite 0)\<rparr>
       \<and> AverageMeter_init = \<lparr>val = PyFloat (Finite 0), avg = PyFloat (Finite 0),
                     sum' = PyFloat (Finite 0), count = PyFloat (Finite 0)\<rparr>"
proof -
  let ?computed = "\<forall>k \<in> {1..length calls}. \<exists>ps s c.
              py_products (take k calls) = Inr ps
            \<and> py_sum (PyFloat (Finite 0)) ps = Inr s
            \<and> py_sum (PyFloat (Finite 0)) (map snd (take k calls)) = Inr c
            \<and> \<not> is_zero c"
  have fields: "sum' (reset m) = PyFloat (Finite 0)" "count (reset m) = PyFloat (Finite 0)"
    by (simp_all add: reset_def)
  have returned: "?computed" if "updates (reset m) calls = Inr m'" for m'
    using updates_returned [OF that] by (simp only: fields)
  have invariant: "\<exists>m' ps. updates (reset m) calls = Inr m'
           \<and> py_sum (PyFloat (Finite 0)) (map snd calls) = Inr (count m')
           \<and> py_products calls = Inr ps
           \<and> py_sum (PyFloat (Finite 0)) ps = Inr (sum' m')
           \<and> val m' = fst (last calls)
           \<and> py_truediv (sum' m') (count m') = Inr (avg m')" if "?computed"
  proof -
    from that have "\<forall>k \<in> {1..length calls}. \<exists>ps s c.
              py_products (take k calls) = Inr ps
            \<and> py_sum (sum' (reset m)) ps = Inr s
            \<and> py_sum (count (reset m)) (map snd (take k calls)) = Inr c
            \<and> \<not> is_zero c"
      by (simp only: fields)
    from updates_from [OF this] assms show ?thesis
      by (simp add: fields)
  qed
  have "(\<exists>m'. updates (reset m) calls = Inr m') \<longleftrightarrow> ?computed"
    using returned invariant by blast
  moreover have "\<forall>m'. updates (reset m) calls = Inr m' \<longrightarrow>
            (\<exists>ps. py_sum (PyFloat (Finite 0)) (map snd calls) = Inr (count m')
                \<and> py_products calls = Inr ps
                \<and> py_sum (PyFloat (Finite 0)) ps = Inr (sum' m')
                \<and> val m' = fst (last calls)
                \<and> py_truediv (sum' m') (count m') = Inr (avg m'))"
  proof (intro allI impI)
    fix m' assume m': "updates (reset m) calls = Inr m'"
    from invariant [OF returned [OF m']] m'
    show "\<exists>ps. py_sum (PyFloat (Finite 0)) (map snd calls) = Inr (count m')
                \<and> py_products calls = Inr ps
                \<and> py_sum (PyFloat (Finite 0)) ps = Inr (sum' m')
                \<and> val m' = fst (last calls)
                \<and> py_truediv (sum' m') (count m') = Inr (avg m')"
      by auto
  qed
  moreover have "reset m = \<lparr>val = PyFloat (Finite 0), avg = PyFloat (Finite 0),
                     sum' = PyFloat (Finite 0), count = PyFloat (Finite 0)\<rparr>"
    by (simp add: reset_def)
  moreover have "AverageMeter_init = \<lparr>val = PyFloat (Finite 0), avg = PyFloat (Finite 0),
                     sum' = PyFloat (Finite 0), count = PyFloat (Finite 0)\<rparr>"
    by (simp add: AverageMeter_init_def reset_def)
  ultimately show ?thesis by blast
qed

text \<open>
  The calls \<open>update(0.1, 3)\<close>, \<open>update(2)\<close>, where \<open>0.1\<close> is the double
  \<open>3602879701896397 / 2 ^ 55\<close> (\<open>round64_tenth\<close>): the float product \<open>0.1 * 3\<close> is
  \<open>0.30000000000000004\<close> and the float sum \<open>0.30000000000000004 + 2\<close> is \<open>2.3\<close>.
\<close>

theorem AverageMeter_invariant_witness:
  "updates AverageMeter_init
     [(PyFloat (Finite (3602879701896397 / 2 ^ 55)), PyInt 3), (PyInt 2, PyInt 1)]
   = Inr \<lparr>val = PyInt 2, avg = PyFloat (Finite (2589569785738035 / 2 ^ 52)),
           sum' = PyFloat (Finite (2589569785738035 / 2 ^ 50)), count = PyFloat (Finite 4)\<rparr>"
proof -
  let ?calls = "[(PyFloat (Finite (3602879701896397 / 2 ^ 55)), PyInt 3), (PyInt 2, PyInt 1)]"
  have ne: "?calls \<noteq> []" by simp
  have ok: "\<forall>k \<in> {1..length ?calls}. \<exists>ps s c.
              py_products (take k ?calls) = Inr ps
            \<and> py_sum (PyFloat (Finite 0)) ps = Inr s
            \<and> py_sum (PyFloat (Finite 0)) (map snd (take k ?calls)) = Inr c
            \<and> \<not> is_zero c"
  proof
    fix k assume "k \<in> {1..length ?calls}"
    then consider "k = 1" | "k = 2" by fastforce
    then show "\<exists>ps s c.
              py_products (take k ?calls) = Inr ps
            \<and> py_sum (PyFloat (Finite 0)) ps = Inr s
            \<and> py_sum (PyFloat (Finite 0)) (map snd (take k ?calls)) = Inr c
            \<and> \<not> is_zero c"
    proof cases
      case 1
      then show ?thesis by (simp add: evaluate)
    next
      case 2
      then show ?thesis by (simp add: evaluate)
    qed
  qed
  from AverageMeter_invariant [OF ne, of AverageMeter_init] ok
  obtain m' where m': "updates (reset AverageMeter_init) ?calls = Inr m'"
    by blast
  have "updates AverageMeter_init ?calls
      = Inr \<lparr>val = PyInt 2, avg = PyFloat (Finite (2589569785738035 / 2 ^ 52)),
           sum' = PyFloat (Finite (2589569785738035 / 2 ^ 50)), count = PyFloat (Finite 4)\<rparr>"
    by (simp add: evaluate)
  with m' show ?thesis by simp
qed

section \<open>Theorems: \<open>ServerConnector.deal_queue\<close>\<close>

text \<open>
  C6. \<open>ServerConnector.deal_queue\<close> issues, for every item of its read queue and in
  queue order, exactly one send to rank 0 with the item's message code and payload
  unchanged; the sender rank is dropped. Nothing else changes, and the task then blocks
  on the empty queue.
\<close>

theorem ServerConnector_deal_queue_forwards:
  "ServerConnector_deal_queue c =
     Blocked (c\<lparr>mq_read := [],
                trace := trace c @
                  map (\<lambda>(sender, message_code, payload). Send payload message_code 0)
                    (mq_read c)\<rparr>)"
proof (induction c rule: ServerConnector_deal_queue.induct)
  case (1 c)
  show ?case
  proof (cases "mq_read c")
    case Nil
    then have "c\<lparr>mq_read := []\<rparr> = c" by (cases c) simp
    with Nil show ?thesis
      by (subst ServerConnector_deal_queue.simps) simp
  next
    case (Cons item q)
    obtain sender message_code payload where item: "item = (sender, message_code, payload)"
      by (cases item)
    from "1.IH" [OF Cons [unfolded item] refl refl] Cons item show ?thesis
      by (subst ServerConnector_deal_queue.simps) (simp add: send_def)
  qed
qed

theorem ServerConnector_deal_queue_forwards_witness:
  "ServerConnector_deal_queue
     \<lparr>network = \<lparr>world_size = 2, pending = []\<rparr>, handler = (None :: unit backend_handler option), trace = [],
      mq_read = [(1, ParameterUpdate, [''w1'']), (2, Exit, [])], mq_write = [],
      watching_queue = True\<rparr>
   = Blocked
     \<lparr>network = \<lparr>world_size = 2, pending = []\<rparr>, handler = None,
      trace = [Send [''w1''] ParameterUpdate 0, Send [] Exit 0],
      mq_read = [], mq_write = [], watching_queue = True\<rparr>"
  by (simp add: ServerConnector_deal_queue_forwards)

section \<open>Theorems: \<open>ClientConnector.deal_queue\<close>\<close>

lemma trace_send_each:
  "send_each to_int32 message_code payload rank_dict s =
     s\<lparr>trace := trace s @
          map (\<lambda>(rank, values). Send (to_int32 values # payload) message_code rank) rank_dict\<rparr>"
  by (induction rank_dict arbitrary: s) (auto simp: send_def)

lemma sends_to_fan_out:
  "distinct (map fst rank_dict) \<Longrightarrow>
     sends_to rank (map (\<lambda>(rank, values). Send (f values) message_code rank) rank_dict)
       = (if rank \<in> fst ` set rank_dict then 1 else 0)"
  by (induction rank_dict) force+

text \<open>
  C1. When \<open>ClientConnector.deal_queue\<close> dequeues an item whose payload has a leading
  element \<open>id_list\<close>, and \<open>map_id_list\<close> of the coordinator groups it into the
  dictionary \<open>rank_dict\<close>, the task performs one send for each rank of \<open>rank_dict\<close> and
  nothing else before it goes on with the rest of the queue: the send to a rank carries
  that rank's ids, converted to an int32 tensor, followed by the remaining payload, with
  the message code of the item. So every rank of \<open>rank_dict\<close> receives exactly one send
  and no other rank receives any.
\<close>

theorem ClientConnector_deal_queue_fan_out:
  assumes "mq_read c = (sender, message_code, id_list # payload) # q"
    and "coordinator c = Some co"
    and "map_id_list' co id_list = Inr rank_dict"
    and "distinct (map fst rank_dict)"
    and "sends = map (\<lambda>(rank, values). Send (int32_tensor values # payload) message_code rank)
                   rank_dict"
  shows "ClientConnector_deal_queue map_id_list' int32_tensor c =
           ClientConnector_deal_queue map_id_list' int32_tensor
             (c\<lparr>mq_read := q, trace := trace c @ sends\<rparr>)
       \<and> length sends = length rank_dict
       \<and> (\<forall>rank. sends_to rank sends = (if rank \<in> fst ` set rank_dict then 1 else 0))"
proof -
  have "ClientConnector_deal_queue map_id_list' int32_tensor c =
          ClientConnector_deal_queue map_id_list' int32_tensor
            (c\<lparr>mq_read := q, trace := trace c @ sends\<rparr>)"
    using assms(1,2,3,5)
    by (subst ClientConnector_deal_queue.simps) (simp add: trace_send_each)
  moreover have "length sends = length rank_dict"
    using assms(5) by simp
  moreover have "\<forall>rank. sends_to rank sends = (if rank \<in> fst ` set rank_dict then 1 else 0)"
    unfolding assms(5) using sends_to_fan_out [OF assms(4)] by fast
  ultimately show ?thesis by blast
qed

theorem ClientConnector_deal_queue_fan_out_witness:
  "ClientConnector_deal_queue map_id_list (\<lambda>values. values)
     \<lparr>network = \<lparr>world_size = 6, pending = []\<rparr>,
      handler = (None :: unit backend_handler option), trace = [],
      mq_read = [(0, ParameterUpdate, [[3, 7, 9], [100, 200]])], mq_write = [],
      watching_queue = True,
      coordinator = Some \<lparr>rank_ids = [(2, [3, 7]), (5, [9])]\<rparr>\<rparr>
   = Blocked
     \<lparr>network = \<lparr>world_size = 6, pending = []\<rparr>, handler = None,
      trace = [Send [[3, 7], [100, 200]] ParameterUpdate 2,
               Send [[9], [100, 200]] ParameterUpdate 5],
      mq_read = [], mq_write = [], watching_queue = True,
      coordinator = Some \<lparr>rank_ids = [(2, [3, 7]), (5, [9])]\<rparr>\<rparr>"
proof -
  let ?co = "\<lparr>rank_ids = [(2, [3, 7]), (5, [9])]\<rparr>"
  let ?c = "\<lparr>network = \<lparr>world_size = 6, pending = []\<rparr>,
      handler = (None :: unit backend_handler option), trace = [],
      mq_read = [(0, ParameterUpdate, [[3, 7, 9], [100, 200 :: int]])], mq_write = [],
      watching_queue = True, coordinator = Some ?co\<rparr>"
  have queue: "mq_read ?c = (0, ParameterUpdate, [3, 7, 9] # [[100, 200]]) # []" by simp
  have coord: "coordinator ?c = Some ?co" by simp
  have groups: "map_id_list ?co [3, 7, 9] = Inr [(2, [3, 7]), (5, [9])]"
    by (simp add: map_id_list_def owner_def add_to_group_def)
  have dist: "distinct (map fst [(2 :: int, [3, 7 :: int]), (5, [9])])" by simp
  from ClientConnector_deal_queue_fan_out [where map_id_list' = map_id_list
      and int32_tensor = "\<lambda>values. values" and c = ?c and co = ?co and id_list = "[3, 7, 9]",
      OF queue coord groups dist refl]
  show ?thesis
    by (simp add: ClientConnector_deal_queue.simps)
qed

section \<open>Theorems: \<open>ClientConnector.setup\<close>\<close>

lemma take_from_find:
  "take_from r ps = map_option (\<lambda>p. (p, remove1 p ps)) (find (\<lambda>p. fst p = r) ps)"
proof (induction ps)
  case Nil
  then show ?case by simp
next
  case (Cons p ps)
  show ?case
  proof (cases "fst p = r")
    case True
    then show ?thesis by simp
  next
    case False
    then have "\<And>q. find (\<lambda>p. fst p = r) ps = Some q \<Longrightarrow> q \<noteq> p"
      by (auto simp: find_Some_iff)
    with False Cons.IH show ?thesis
      by (auto split: option.splits)
  qed
qed

lemma find_remove1_other:
  "fst p \<noteq> r \<Longrightarrow> find (\<lambda>q. fst q = r) (remove1 p ps) = find (\<lambda>q. fst q = r) ps"
  by (induction ps) auto

lemma update_fresh:
  "k \<notin> fst ` set m \<Longrightarrow> AList.update k x m = m @ [(k, x)]"
  by (induction m) auto

lemma fold_update_fresh:
  "distinct ranks \<Longrightarrow> set ranks \<inter> fst ` set m = {} \<Longrightarrow>
     fold (\<lambda>r. AList.update r (v r)) ranks m = m @ map (\<lambda>r. (r, v r)) ranks"
proof (induction ranks arbitrary: m)
  case Nil
  then show ?case by simp
next
  case (Cons r ranks)
  from Cons.prems have fresh: "r \<notin> fst ` set m" by auto
  from Cons.prems have "set ranks \<inter> fst ` set (m @ [(r, v r)]) = {}" by auto
  with Cons.IH [of "m @ [(r, v r)]"] Cons.prems(1) fresh show ?case
    by (simp add: update_fresh)
qed

lemma recv_identities_all:
  assumes "distinct ranks"
    and "\<forall>r \<in> set ranks.
           find (\<lambda>p. fst p = r) (pending (network s)) = Some (r, mc r, idt r # rest r)
         \<and> item (idt r) = Inr (v r)"
  shows "recv_identities item ranks m s =
           Inr (fold (\<lambda>r. AList.update r (v r)) ranks m,
                s\<lparr>network := (network s)
                     \<lparr>pending := fold (\<lambda>r. remove1 (r, mc r, idt r # rest r)) ranks
                                   (pending (network s))\<rparr>,
                   trace := trace s @
                     map (\<lambda>r. Recv (Some r) (r, mc r, idt r # rest r)) ranks\<rparr>)"
  using assms
proof (induction ranks arbitrary: m s)
  case Nil
  then show ?case by simp
next
  case (Cons r ranks)
  let ?p = "(r, mc r, idt r # rest r)"
  let ?s1 = "s\<lparr>network := (network s)\<lparr>pending := remove1 ?p (pending (network s))\<rparr>,
               trace := trace s @ [Recv (Some r) ?p]\<rparr>"
  from Cons.prems(2) have found: "find (\<lambda>p. fst p = r) (pending (network s)) = Some ?p"
    and item: "item (idt r) = Inr (v r)"
    by simp_all
  have recv: "recv (Some r) s = (Some ?p, ?s1)"
    by (simp add: recv_def take_package_def take_from_find found)
  have "\<forall>r' \<in> set ranks.
           find (\<lambda>p. fst p = r') (pending (network ?s1)) = Some (r', mc r', idt r' # rest r')
         \<and> item (idt r') = Inr (v r')"
  proof
    fix r' assume r': "r' \<in> set ranks"
    with Cons.prems(1) have "fst ?p \<noteq> r'" by auto
    from find_remove1_other [OF this] Cons.prems(2) r'
    show "find (\<lambda>p. fst p = r') (pending (network ?s1)) = Some (r', mc r', idt r' # rest r')
         \<and> item (idt r') = Inr (v r')"
      by simp
  qed
  from Cons.IH [OF _ this, of "AList.update r (v r) m"] Cons.prems(1) recv item
  show ?case by simp
qed

text \<open>
  C2. When every rank of \<open>[1, world_size)\<close> has a declaration pending whose first tensor
  holds one value, and the constructor accepts the resulting mapping, \<open>ClientConnector.setup\<close>
  returns, having performed exactly one receive from each of these ranks, in increasing
  rank order, and no other call; the coordinator is the one built from the mapping that
  gives each rank its value; and a handler that is attached has its
  \<open>client_num_in_total\<close> set to the coordinator's total (without a handler, none is
  set).
\<close>

theorem ClientConnector_setup_handshake:
  assumes "\<forall>r \<in> set [1 .. world_size (network c) - 1].
             find (\<lambda>p. fst p = r) (pending (network c)) = Some (r, mc r, idt r # rest r)
           \<and> item (idt r) = Inr (v r)"
    and "Coordinator' (map (\<lambda>r. (r, v r)) [1 .. world_size (network c) - 1]) = Inr co"
  shows "\<exists>c'. ClientConnector_setup item Coordinator' total' c = Inr c'
           \<and> trace c' = trace c @
                 map (\<lambda>r. Recv (Some r) (r, mc r, idt r # rest r))
                   [1 .. world_size (network c) - 1]
           \<and> coordinator c' = Some co
           \<and> handler c' = map_option (\<lambda>h. h\<lparr>client_num_in_total := total' co\<rparr>) (handler c)"
proof -
  let ?ranks = "[1 .. world_size (network c) - 1]"
  have mapping: "fold (\<lambda>r. AList.update r (v r)) ?ranks [] = map (\<lambda>r. (r, v r)) ?ranks"
    using fold_update_fresh [of ?ranks "[]" v] by simp
  from recv_identities_all [OF _ assms(1), of "[]"] mapping assms(2)
  show ?thesis
    by (cases "handler c") (simp_all add: ClientConnector_setup_def)
qed

theorem ClientConnector_setup_handshake_witness:
  "ClientConnector_setup (\<lambda>t. case t of [x] \<Rightarrow> Inr x | _ \<Rightarrow> Inl ValueError) build total
     \<lparr>network = \<lparr>world_size = 3,
                  pending = [(2, Control 0, [[11]]), (1, Control 0, [[10 :: int]])]\<rparr>,
      handler = Some \<lparr>model = (), client_num_in_total = 0\<rparr>, trace = [],
      mq_read = [], mq_write = [], watching_queue = False,
      coordinator = None\<rparr>
   = Inr
     \<lparr>network = \<lparr>world_size = 3, pending = []\<rparr>,
      handler = Some \<lparr>model = (), client_num_in_total = 2\<rparr>,
      trace = [Recv (Some 1) (1, Control 0, [[10]]), Recv (Some 2) (2, Control 0, [[11]])],
      mq_read = [], mq_write = [], watching_queue = False,
      coordinator = Some \<lparr>rank_ids = [(1, [10]), (2, [11])]\<rparr>\<rparr>"
proof -
  let ?item = "\<lambda>t :: int list. case t of [x] \<Rightarrow> Inr x | _ \<Rightarrow> Inl ValueError"
  let ?c = "\<lparr>network = \<lparr>world_size = 3,
                  pending = [(2, Control 0, [[11]]), (1, Control 0, [[10 :: int]])]\<rparr>,
      handler = Some \<lparr>model = (), client_num_in_total = 0\<rparr>, trace = [],
      mq_read = [], mq_write = [], watching_queue = False,
      coordinator = (None :: Coordinator option)\<rparr>"
  have ranks: "[1 .. world_size (network ?c) - 1] = [1, 2]"
    by (simp add: upto.simps)
  have pending: "\<forall>r \<in> set [1 .. world_size (network ?c) - 1].
       find (\<lambda>p. fst p = r) (pending (network ?c))
         = Some (r, Control 0, (if r = 1 then [10] else [11]) # [])
     \<and> ?item (if r = 1 then [10] else [11]) = Inr (if r = 1 then 10 else 11)"
    unfolding ranks by simp
  have built: "build (map (\<lambda>r. (r, if r = 1 then 10 else 11)) [1 .. world_size (network ?c) - 1])
      = Inr \<lparr>rank_ids = [(1, [10]), (2, [11])]\<rparr>"
    unfolding ranks by (simp add: build_def)
  from ClientConnector_setup_handshake [where item = ?item and Coordinator' = build
      and c = ?c and total' = total, OF pending built]
  obtain c' where "ClientConnector_setup ?item build total ?c = Inr c'"
    by blast
  then show ?thesis
    by (simp add: ClientConnector_setup_def recv_def take_package_def build_def total_def
        upto.simps)
qed

section \<open>Theorems: \<open>Coordinator.map_id_list\<close>\<close>

lemma add_to_group_distinct:
  "distinct (map fst d) \<Longrightarrow> distinct (map fst (add_to_group rank i d))"
  by (auto simp: add_to_group_def distinct_update map_of_eq_None_iff split: option.splits)

lemma add_to_group_map_of:
  "map_of (add_to_group rank i d) =
     (map_of d)(rank \<mapsto> (case map_of d rank of None \<Rightarrow> [i] | Some g \<Rightarrow> g @ [i]))"
  by (rule ext) (auto simp: add_to_group_def update_conv' map_add_def split: option.splits)

lemma group_ids_groups:
  assumes "group_ids co ids d0 = Inr d"
    and "distinct (map fst d0)"
    and "\<forall>rank. map_of d0 rank =
           (let g = filter (\<lambda>i. owner co i = Some rank) seen in if g = [] then None else Some g)"
  shows "distinct (map fst d)
       \<and> (\<forall>rank. map_of d rank =
            (let g = filter (\<lambda>i. owner co i = Some rank) (seen @ ids)
             in if g = [] then None else Some g))"
  using assms
proof (induction ids arbitrary: d0 seen)
  case Nil
  then show ?case by simp
next
  case (Cons i ids)
  from Cons.prems(1) obtain rank where rank: "owner co i = Some rank"
    and rest: "group_ids co ids (add_to_group rank i d0) = Inr d"
    by (auto split: option.splits)
  have dist: "distinct (map fst (add_to_group rank i d0))"
    by (rule add_to_group_distinct [OF Cons.prems(2)])
  have groups: "\<forall>r. map_of (add_to_group rank i d0) r =
           (let g = filter (\<lambda>j. owner co j = Some r) (seen @ [i])
            in if g = [] then None else Some g)"
    using Cons.prems(3) rank by (auto simp: add_to_group_map_of Let_def)
  from Cons.IH [OF rest dist groups] show ?case by simp
qed

lemma group_ids_total:
  "\<forall>i \<in> set ids. owner co i \<noteq> None \<Longrightarrow> \<exists>d. group_ids co ids d0 = Inr d"
  by (induction ids arbitrary: d0) auto

lemma group_ids_mapping_only:
  "rank_ids co' = rank_ids co \<Longrightarrow> group_ids co' ids d0 = group_ids co ids d0"
proof (induction ids arbitrary: d0)
  case Nil
  then show ?case by simp
next
  case (Cons i ids)
  from Cons.prems have "owner co' i = owner co i" by (simp add: owner_def)
  with Cons.IH [OF Cons.prems] show ?case by (simp split: option.splits)
qed

text \<open>
  C8. \<open>map_id_list\<close> is a function of the built mapping and of the input list alone: two
  coordinators with the same mapping, whatever else they hold, give the same result on the
  same list. When it returns a dictionary, its ranks are distinct and the group of a rank
  is not empty and is the list of the input's ids owned by that rank, in the order of the
  input. It returns a dictionary whenever every id of the input is known.
\<close>

theorem map_id_list_order_preserving_deterministic:
  fixes co :: "'a Coordinator_scheme"
  shows
  "(\<forall>d. map_id_list co ids = Inr d \<longrightarrow>
        distinct (map fst d)
      \<and> (\<forall>(rank, g) \<in> set d. g \<noteq> [] \<and> g = filter (\<lambda>i. owner co i = Some rank) ids))
   \<and> ((\<forall>i \<in> set ids. owner co i \<noteq> None) \<longrightarrow> (\<exists>d. map_id_list co ids = Inr d))
   \<and> (\<forall>co' :: 'b Coordinator_scheme.
        rank_ids co' = rank_ids co \<longrightarrow> map_id_list co' ids = map_id_list co ids)"
proof (intro conjI allI impI)
  fix d assume d: "map_id_list co ids = Inr d"
  have "\<forall>rank. map_of [] rank =
          (let g = filter (\<lambda>i. owner co i = Some rank) [] in if g = [] then None else Some g)"
    by simp
  from group_ids_groups [OF d [unfolded map_id_list_def] _ this]
  have dist: "distinct (map fst d)"
    and groups: "\<And>rank. map_of d rank =
          (let g = filter (\<lambda>i. owner co i = Some rank) ids in if g = [] then None else Some g)"
    by simp_all
  show "distinct (map fst d)" by (rule dist)
  show "\<forall>(rank, g) \<in> set d. g \<noteq> [] \<and> g = filter (\<lambda>i. owner co i = Some rank) ids"
  proof (clarify, rule conjI)
    fix rank g assume "(rank, g) \<in> set d"
    with dist have "map_of d rank = Some g" by simp
    with groups [of rank] show "g \<noteq> []" and "g = filter (\<lambda>i. owner co i = Some rank) ids"
      by (auto simp: Let_def split: if_splits)
  qed
next
  assume "\<forall>i \<in> set ids. owner co i \<noteq> None"
  then show "\<exists>d. map_id_list co ids = Inr d"
    unfolding map_id_list_def by (rule group_ids_total)
next
  fix co' :: "'b Coordinator_scheme"
  assume "rank_ids co' = rank_ids co"
  then show "map_id_list co' ids = map_id_list co ids"
    unfolding map_id_list_def by (rule group_ids_mapping_only)
qed

theorem map_id_list_order_preserving_deterministic_witness:
  "map_id_list \<lparr>rank_ids = [(2, [3, 7]), (5, [9])]\<rparr> [9, 3, 7, 3]
     = Inr [(5, [9]), (2, [3, 7, 3])]
   \<and> filter (\<lambda>i. owner \<lparr>rank_ids = [(2, [3, 7]), (5, [9])]\<rparr> i = Some 2) [9, 3, 7, 3]
     = [3, 7, 3]
   \<and> filter (\<lambda>i. owner \<lparr>rank_ids = [(2, [3, 7]), (5, [9])]\<rparr> i = Some 5) [9, 3, 7, 3]
     = [9]
   \<and> map_id_list \<lparr>rank_ids = [(2, [3, 7]), (5, [9])], \<dots> = True\<rparr> [9, 3, 7, 3]
     = Inr [(5, [9]), (2, [3, 7, 3])]"
proof -
  let ?co = "\<lparr>rank_ids = [(2, [3, 7]), (5, [9])]\<rparr>"
  have known: "\<forall>i \<in> set [9, 3, 7, 3]. owner ?co i \<noteq> None"
    by (simp add: owner_def)
  note inst = map_id_list_order_preserving_deterministic
      [where 'b = bool and co = ?co and ids = "[9, 3, 7, 3]"]
  from inst known obtain d where d: "map_id_list ?co [9, 3, 7, 3] = Inr d"
    by blast
  from inst have same:
    "map_id_list \<lparr>rank_ids = [(2, [3, 7]), (5, [9])], \<dots> = True\<rparr> [9, 3, 7, 3]
       = map_id_list ?co [9, 3, 7, 3]"
    by simp
  have "map_id_list ?co [9, 3, 7, 3] = Inr [(5, [9]), (2, [3, 7, 3])]"
    by (simp add: map_id_list_def owner_def add_to_group_def)
  with same show ?thesis by (simp add: owner_def)
qed

section \<open>Theorems: the client managers\<close>

lemma recv_package_trace:
  "recv_package src s = (r, s') \<Longrightarrow>
     trace s' = trace s @ [case r of None \<Rightarrow> Recv_blocked src | Some p \<Rightarrow> Recv src p]
     \<and> handler s' = handler s"
  by (auto simp: recv_package_def recv_def split: option.splits)

lemma take_from_sender:
  "take_from r ps = Some (p, ps') \<Longrightarrow> fst p = r"
  by (induction ps arbitrary: ps') (auto split: if_splits option.splits)

lemma recv_package_sender:
  "recv_package (Some r) s = (Some (sender, message_code, payload), s') \<Longrightarrow> sender = r"
  by (auto simp: recv_package_def recv_def take_package_def dest: take_from_sender
      split: option.splits)

lemma ClientPassiveManager_on_receive_Inr:
  assumes "ClientPassiveManager_on_receive train sender_rank message_code payload s = Inr s2"
  shows "\<exists>p0 rest h h'. payload = p0 # rest \<and> handler s = Some h \<and> train p0 h = Inr h'
           \<and> s2 = s\<lparr>handler := Some h', trace := trace s @ [Train p0]\<rparr>"
  using assms
  by (auto simp: ClientPassiveManager_on_receive_def split: list.splits option.splits sum.splits)

lemma ClientPassiveManager_on_receive_Inl:
  assumes "ClientPassiveManager_on_receive train sender_rank message_code payload s = Inl st"
  shows "trace (final st) = trace s \<or> (\<exists>p0. trace (final st) = trace s @ [Train p0])"
  using assms
  by (auto simp: ClientPassiveManager_on_receive_def split: list.splits option.splits sum.splits)

lemma ClientPassiveManager_synchronize_Inr:
  assumes "ClientPassiveManager_synchronize serialize_model s = Inr s3"
  shows "\<exists>h. handler s = Some h
           \<and> s3 = s\<lparr>trace := trace s @ [Send [serialize_model (model h)] ParameterUpdate 0]\<rparr>"
  using assms
  by (auto simp: ClientPassiveManager_synchronize_def send_def split: option.splits)

lemma ClientPassiveManager_synchronize_Inl:
  "ClientPassiveManager_synchronize serialize_model s = Inl st \<Longrightarrow> final st = s"
  by (auto simp: ClientPassiveManager_synchronize_def split: option.splits)

lemma ClientPassiveManager_loop_trace:
  "\<exists>new. trace (final (ClientPassiveManager_loop train serialize_model s)) = trace s @ new
         \<and> exit_is_last new \<and> sends_follow_train False new"
proof (induction train serialize_model s rule: ClientPassiveManager_loop.induct)
  case (1 train serialize_model s)
  obtain r s1 where recv: "recv_package (Some 0) s = (r, s1)"
    by (cases "recv_package (Some 0) s")
  note tr1 = recv_package_trace [OF recv]
  show ?case
  proof (cases r)
    case None
    with recv tr1 show ?thesis
      by (subst ClientPassiveManager_loop.simps) simp
  next
    case (Some p)
    obtain sender message_code payload where p: "p = (sender, message_code, payload)"
      by (cases p)
    show ?thesis
    proof (cases "message_code = Exit")
      case True
      with recv tr1 Some p show ?thesis
        by (subst ClientPassiveManager_loop.simps) simp
    next
      case False
      show ?thesis
      proof (cases "ClientPassiveManager_on_receive train sender message_code payload s1")
        case (Inl st)
        from ClientPassiveManager_on_receive_Inl [OF Inl] recv tr1 Some p False Inl
        show ?thesis
          by (subst ClientPassiveManager_loop.simps) auto
      next
        case (Inr s2)
        from ClientPassiveManager_on_receive_Inr [OF Inr] obtain p0 where
          tr2: "trace s2 = trace s1 @ [Train p0]"
          by auto
        show ?thesis
        proof (cases "ClientPassiveManager_synchronize serialize_model s2")
          case (Inl st)
          from ClientPassiveManager_synchronize_Inl [OF Inl] recv tr1 tr2 Some p False Inr Inl
          show ?thesis
            by (subst ClientPassiveManager_loop.simps) auto
        next
          case s3: (Inr s3)
          from ClientPassiveManager_synchronize_Inr [OF s3] obtain content where
            tr3: "trace s3 = trace s2 @ [Send content ParameterUpdate 0]"
            by auto
          from "1.IH" [OF recv [symmetric] Some p [symmetric] refl False Inr s3]
          obtain new where new: "trace (final (ClientPassiveManager_loop train serialize_model s3))
              = trace s3 @ new" "exit_is_last new" "sends_follow_train False new"
            by blast
          have "ClientPassiveManager_loop train serialize_model s
                  = ClientPassiveManager_loop train serialize_model s3"
            using recv Some p False Inr s3
            by (subst ClientPassiveManager_loop.simps) simp
          with new tr1 tr2 tr3 Some p False show ?thesis
            by simp
        qed
      qed
    qed
  qed
qed


lemma request_model_trace:
  "trace (request_model s) = trace s @ [Send [] ParameterRequest 0]
     \<and> handler (request_model s) = handler s \<and> epochs (request_model s) = epochs s"
  by (simp add: request_model_def send_def)

lemma ClientActiveManager_on_receive_Inr:
  assumes "ClientActiveManager_on_receive train sender_rank message_code payload s = Inr s2"
  shows "\<exists>p0 t rest h h'. payload = p0 # t # rest \<and> handler s = Some h
           \<and> train (epochs s) p0 h = Inr h'
           \<and> s2 = s\<lparr>handler := Some h', trace := trace s @ [Train p0],
                    model_gen_time := Some t\<rparr>"
  using assms
  by (auto simp: ClientActiveManager_on_receive_def Let_def
      split: list.splits option.splits sum.splits)

lemma ClientActiveManager_on_receive_Inl:
  assumes "ClientActiveManager_on_receive train sender_rank message_code payload s = Inl st"
  shows "trace (final st) = trace s \<or> (\<exists>p0. trace (final st) = trace s @ [Train p0])"
  using assms
  by (auto simp: ClientActiveManager_on_receive_def Let_def
      split: list.splits option.splits sum.splits)

lemma ClientActiveManager_synchronize_Inr:
  assumes "ClientActiveManager_synchronize serialize_model s = Inr s3"
  shows "\<exists>h t. handler s = Some h \<and> model_gen_time s = Some t
           \<and> s3 = s\<lparr>trace := trace s @ [Send [serialize_model (model h), t] ParameterUpdate 0]\<rparr>"
  using assms
  by (auto simp: ClientActiveManager_synchronize_def send_def Let_def split: option.splits)

lemma ClientActiveManager_synchronize_Inl:
  "ClientActiveManager_synchronize serialize_model s = Inl st \<Longrightarrow> final st = s"
  by (auto simp: ClientActiveManager_synchronize_def Let_def split: option.splits)

lemma ClientActiveManager_loop_trace:
  "\<exists>new. trace (final (ClientActiveManager_loop train serialize_model s)) = trace s @ new
         \<and> exit_is_last new"
proof (induction train serialize_model s rule: ClientActiveManager_loop.induct)
  case (1 train serialize_model s)
  obtain r s1 where recv: "recv_package (Some 0) (request_model s) = (r, s1)"
    by (cases "recv_package (Some 0) (request_model s)")
  from recv_package_trace [OF recv] request_model_trace [of s]
  have tr1: "trace s1 = trace s @ [Send [] ParameterRequest 0,
      case r of None \<Rightarrow> Recv_blocked (Some 0) | Some p \<Rightarrow> Recv (Some 0) p]"
    by simp
  show ?case
  proof (cases r)
    case None
    with recv tr1 show ?thesis
      by (subst ClientActiveManager_loop.simps) simp
  next
    case (Some p)
    obtain sender message_code payload where p: "p = (sender, message_code, payload)"
      by (cases p)
    show ?thesis
    proof (cases "message_code = Exit")
      case True
      with recv tr1 Some p show ?thesis
        by (subst ClientActiveManager_loop.simps) simp
    next
      case False
      show ?thesis
      proof (cases "ClientActiveManager_on_receive train sender message_code payload s1")
        case (Inl st)
        from ClientActiveManager_on_receive_Inl [OF Inl] recv tr1 Some p False Inl
        show ?thesis
          by (subst ClientActiveManager_loop.simps) auto
      next
        case (Inr s2)
        from ClientActiveManager_on_receive_Inr [OF Inr] obtain p0 where
          tr2: "trace s2 = trace s1 @ [Train p0]"
          by auto
        show ?thesis
        proof (cases "ClientActiveManager_synchronize serialize_model s2")
          case (Inl st)
          from ClientActiveManager_synchronize_Inl [OF Inl] recv tr1 tr2 Some p False Inr Inl
          show ?thesis
            by (subst ClientActiveManager_loop.simps) auto
        next
          case s3: (Inr s3)
          from ClientActiveManager_synchronize_Inr [OF s3] obtain content where
            tr3: "trace s3 = trace s2 @ [Send content ParameterUpdate 0]"
            by auto
          from "1.IH" [OF recv [symmetric] Some p [symmetric] refl False Inr s3]
          obtain new where new: "trace (final (ClientActiveManager_loop train serialize_model s3))
              = trace s3 @ new" "exit_is_last new"
            by blast
          have "ClientActiveManager_loop train serialize_model s
                  = ClientActiveManager_loop train serialize_model s3"
            using recv Some p False Inr s3
            by (subst ClientActiveManager_loop.simps) simp
          with new tr1 tr2 tr3 Some p False show ?thesis
            by simp
        qed
      qed
    qed
  qed
qed

text \<open>
  C3. In both client managers, an iteration of \<open>run\<close> that receives an envelope whose
  code is \<open>Exit\<close> ends the process there, in the state the receive left: nothing is sent
  after it. Over a whole run, from the first call on, no event at all (so no
  \<open>ParameterUpdate\<close>) is logged after the receipt of an \<open>Exit\<close>.
\<close>

theorem Exit_terminates_client:
  "(recv_package (Some 0) s = (Some (sender, Exit, payload), s') \<longrightarrow>
      ClientPassiveManager_loop train serialize_model s = Exited s'
      \<and> trace s' = trace s @ [Recv (Some 0) (sender, Exit, payload)])
   \<and> (recv_package (Some 0) (request_model a) = (Some (sender, Exit, payload), a') \<longrightarrow>
      ClientActiveManager_loop train' serialize_model a = Exited a'
      \<and> trace a' = trace a @ [Send [] ParameterRequest 0, Recv (Some 0) (sender, Exit, payload)])
   \<and> (\<exists>new. trace (final (ClientPassiveManager_run train serialize_model s))
                = trace s @ Init_connection # new \<and> exit_is_last new)
   \<and> (\<exists>new. trace (final (ClientActiveManager_run train' serialize_model a))
                = trace a @ Init_connection # new \<and> exit_is_last new)"
proof (intro conjI impI)
  assume recv: "recv_package (Some 0) s = (Some (sender, Exit, payload), s')"
  then show "ClientPassiveManager_loop train serialize_model s = Exited s'"
    by (subst ClientPassiveManager_loop.simps) simp
  from recv_package_trace [OF recv]
  show "trace s' = trace s @ [Recv (Some 0) (sender, Exit, payload)]" by simp
next
  assume recv: "recv_package (Some 0) (request_model a) = (Some (sender, Exit, payload), a')"
  then show "ClientActiveManager_loop train' serialize_model a = Exited a'"
    by (subst ClientActiveManager_loop.simps) simp
  from recv_package_trace [OF recv] request_model_trace [of a]
  show "trace a' = trace a @ [Send [] ParameterRequest 0, Recv (Some 0) (sender, Exit, payload)]"
    by simp
next
  from ClientPassiveManager_loop_trace [of train serialize_model "init_network_connection s"]
  show "\<exists>new. trace (final (ClientPassiveManager_run train serialize_model s))
                = trace s @ Init_connection # new \<and> exit_is_last new"
    by (auto simp: ClientPassiveManager_run_def init_network_connection_def)
next
  from ClientActiveManager_loop_trace [of train' serialize_model "init_network_connection a"]
  show "\<exists>new. trace (final (ClientActiveManager_run train' serialize_model a))
                = trace a @ Init_connection # new \<and> exit_is_last new"
    by (auto simp: ClientActiveManager_run_def init_network_connection_def)
qed


theorem Exit_terminates_client_witness:
  "recv_package (Some 0)
     \<lparr>network = \<lparr>world_size = 2, pending = [(0, Exit, []), (0, ParameterUpdate, [''v''])]\<rparr>,
      handler = Some \<lparr>model = ''m'', client_num_in_total = 0\<rparr>, trace = []\<rparr>
   = (Some (0, Exit, []),
     \<lparr>network = \<lparr>world_size = 2, pending = [(0, ParameterUpdate, [''v''])]\<rparr>,
      handler = Some \<lparr>model = ''m'', client_num_in_total = 0\<rparr>,
      trace = [Recv (Some 0) (0, Exit, [])]\<rparr>)
   \<and> ClientPassiveManager_loop (\<lambda>p h. Inr (h\<lparr>model := p\<rparr>)) (\<lambda>m. m)
     \<lparr>network = \<lparr>world_size = 2, pending = [(0, Exit, []), (0, ParameterUpdate, [''v''])]\<rparr>,
      handler = Some \<lparr>model = ''m'', client_num_in_total = 0\<rparr>, trace = []\<rparr>
   = Exited
     \<lparr>network = \<lparr>world_size = 2, pending = [(0, ParameterUpdate, [''v''])]\<rparr>,
      handler = Some \<lparr>model = ''m'', client_num_in_total = 0\<rparr>,
      trace = [Recv (Some 0) (0, Exit, [])]\<rparr>
   \<and> ClientActiveManager_loop (\<lambda>e p h. Inr (h\<lparr>model := p\<rparr>)) (\<lambda>m. m)
     \<lparr>network = \<lparr>world_size = 2, pending = [(0, Exit, []), (0, ParameterUpdate, [''v''])]\<rparr>,
      handler = Some \<lparr>model = ''m'', client_num_in_total = 0\<rparr>, trace = [],
      epochs = (), model_gen_time = None\<rparr>
   = Exited
     \<lparr>network = \<lparr>world_size = 2, pending = [(0, ParameterUpdate, [''v''])]\<rparr>,
      handler = Some \<lparr>model = ''m'', client_num_in_total = 0\<rparr>,
      trace = [Send [] ParameterRequest 0, Recv (Some 0) (0, Exit, [])],
      epochs = (), model_gen_time = None\<rparr>"
proof -
  let ?p = "\<lparr>network = \<lparr>world_size = 2,
                 pending = [(0, Exit, []), (0, ParameterUpdate, [''v''])]\<rparr>,
      handler = Some \<lparr>model = ''m'', client_num_in_total = 0\<rparr>, trace = []\<rparr>"
  let ?p1 = "\<lparr>network = \<lparr>world_size = 2, pending = [(0, ParameterUpdate, [''v''])]\<rparr>,
      handler = Some \<lparr>model = ''m'', client_num_in_total = 0\<rparr>,
      trace = [Recv (Some 0) (0, Exit, [])]\<rparr>"
  let ?a = "\<lparr>network = \<lparr>world_size = 2,
                 pending = [(0, Exit, []), (0, ParameterUpdate, [''v''])]\<rparr>,
      handler = Some \<lparr>model = ''m'', client_num_in_total = 0\<rparr>, trace = [],
      epochs = (), model_gen_time = None\<rparr>"
  let ?a1 = "\<lparr>network = \<lparr>world_size = 2, pending = [(0, ParameterUpdate, [''v''])]\<rparr>,
      handler = Some \<lparr>model = ''m'', client_num_in_total = 0\<rparr>,
      trace = [Send [] ParameterRequest 0, Recv (Some 0) (0, Exit, [])],
      epochs = (), model_gen_time = None\<rparr>"
  have p: "recv_package (Some 0) ?p = (Some (0, Exit, []), ?p1)"
    by (simp add: recv_package_def recv_def take_package_def)
  have a: "recv_package (Some 0) (request_model ?a) = (Some (0, Exit, []), ?a1)"
    by (simp add: recv_package_def recv_def take_package_def request_model_def send_def)
  from Exit_terminates_client [where s = ?p and s' = ?p1 and a = ?a and a' = ?a1
      and sender = 0 and payload = "[]" and train = "\<lambda>p h. Inr (h\<lparr>model := p\<rparr>)"
      and train' = "\<lambda>e p h. Inr (h\<lparr>model := p\<rparr>)" and serialize_model = "\<lambda>m. m"] p a
  show ?thesis by simp
qed

text \<open>
  C7. An iteration of \<open>ClientPassiveManager.run\<close> that receives from rank 0 an envelope
  whose code is not \<open>Exit\<close>, with a first payload element, and whose training step
  returns, calls the training step on that element and then sends exactly one
  \<open>ParameterUpdate\<close> to rank 0, holding the serialized model of the trained handler,
  before the next iteration. Over a whole run, after the connection is initialised, every
  send is a \<open>ParameterUpdate\<close> to rank 0 that comes right after a training step.
\<close>

theorem ClientPassiveManager_train_then_synchronize:
  assumes "recv_package (Some 0) s = (Some (sender, message_code, s_parameters # rest), s')"
    and "message_code \<noteq> Exit"
    and "handler s = Some h"
    and "train s_parameters h = Inr h'"
  shows "sender = 0
       \<and> ClientPassiveManager_loop train serialize_model s =
           ClientPassiveManager_loop train serialize_model
             (s'\<lparr>handler := Some h',
                 trace := trace s @
                   [Recv (Some 0) (sender, message_code, s_parameters # rest),
                    Train s_parameters,
                    Send [serialize_model (model h')] ParameterUpdate 0]\<rparr>)
       \<and> (\<exists>new. trace (final (ClientPassiveManager_run train serialize_model r))
                    = trace r @ Init_connection # new
                  \<and> sends_follow_train False new)"
proof (intro conjI)
  show "sender = 0" by (rule recv_package_sender [OF assms(1)])
  from recv_package_trace [OF assms(1)] assms(3)
  have after_recv: "trace s' = trace s @ [Recv (Some 0) (sender, message_code, s_parameters # rest)]"
    "handler s' = Some h"
    by simp_all
  with assms show "ClientPassiveManager_loop train serialize_model s =
           ClientPassiveManager_loop train serialize_model
             (s'\<lparr>handler := Some h',
                 trace := trace s @
                   [Recv (Some 0) (sender, message_code, s_parameters # rest),
                    Train s_parameters,
                    Send [serialize_model (model h')] ParameterUpdate 0]\<rparr>)"
    by (subst ClientPassiveManager_loop.simps)
       (simp add: ClientPassiveManager_on_receive_def ClientPassiveManager_synchronize_def
          send_def)
  from ClientPassiveManager_loop_trace [of train serialize_model "init_network_connection r"]
  show "\<exists>new. trace (final (ClientPassiveManager_run train serialize_model r))
                    = trace r @ Init_connection # new
                  \<and> sends_follow_train False new"
    by (auto simp: ClientPassiveManager_run_def init_network_connection_def)
qed

theorem ClientPassiveManager_train_then_synchronize_witness:
  "ClientPassiveManager_run (\<lambda>p h. Inr (h\<lparr>model := p @ ''+''\<rparr>)) (\<lambda>m. m)
     \<lparr>network = \<lparr>world_size = 2, pending = [(0, ParameterUpdate, [''w'', ''x''])]\<rparr>,
      handler = Some \<lparr>model = ''m'', client_num_in_total = 0\<rparr>, trace = []\<rparr>
   = Blocked
     \<lparr>network = \<lparr>world_size = 2, pending = []\<rparr>,
      handler = Some \<lparr>model = ''w+'', client_num_in_total = 0\<rparr>,
      trace = [Init_connection, Recv (Some 0) (0, ParameterUpdate, [''w'', ''x'']),
               Train ''w'', Send [''w+''] ParameterUpdate 0, Recv_blocked (Some 0)]\<rparr>"
proof -
  let ?train = "\<lambda>(p :: string) (h :: string backend_handler). Inr (h\<lparr>model := p @ ''+''\<rparr>)
                  :: error + string backend_handler"
  let ?s = "\<lparr>network = \<lparr>world_size = 2, pending = [(0, ParameterUpdate, [''w'', ''x''])]\<rparr>,
      handler = Some \<lparr>model = ''m'', client_num_in_total = 0\<rparr>,
      trace = [Init_connection]\<rparr>"
  let ?s1 = "\<lparr>network = \<lparr>world_size = 2, pending = []\<rparr>,
      handler = Some \<lparr>model = ''m'', client_num_in_total = 0\<rparr>,
      trace = [Init_connection, Recv (Some 0) (0, ParameterUpdate, [''w'', ''x''])]\<rparr>"
  have recv: "recv_package (Some 0) ?s = (Some (0, ParameterUpdate, ''w'' # [''x'']), ?s1)"
    by (simp add: recv_package_def recv_def take_package_def)
  have code: "ParameterUpdate \<noteq> Exit" by simp
  have h: "handler ?s = Some \<lparr>model = ''m'', client_num_in_total = 0\<rparr>" by simp
  have train: "?train ''w'' \<lparr>model = ''m'', client_num_in_total = 0\<rparr>
                 = Inr \<lparr>model = ''w+'', client_num_in_total = 0\<rparr>"
    by simp
  from ClientPassiveManager_train_then_synchronize [where train = ?train
      and serialize_model = "\<lambda>m. m" and r = ?s, OF recv code h train]
  have "ClientPassiveManager_loop ?train (\<lambda>m. m) ?s =
          ClientPassiveManager_loop ?train (\<lambda>m. m)
            \<lparr>network = \<lparr>world_size = 2, pending = []\<rparr>,
             handler = Some \<lparr>model = ''w+'', client_num_in_total = 0\<rparr>,
             trace = [Init_connection, Recv (Some 0) (0, ParameterUpdate, [''w'', ''x'']),
                      Train ''w'', Send [''w+''] ParameterUpdate 0]\<rparr>"
    by simp
  then show ?thesis
    by (simp add: ClientPassiveManager_run_def init_network_connection_def
        ClientPassiveManager_loop.simps [of _ _ "\<lparr>network = \<lparr>world_size = 2, pending = []\<rparr>,
             handler = Some \<lparr>model = ''w+'', client_num_in_total = 0\<rparr>,
             trace = [Init_connection, Recv (Some 0) (0, ParameterUpdate, [''w'', ''x'']),
                      Train ''w'', Send [''w+''] ParameterUpdate 0]\<rparr>"]
        recv_package_def recv_def take_package_def)
qed


lemma recv_package_Some:
  "recv_package src s = (Some p, s') \<Longrightarrow>
     \<exists>ps. s' = s\<lparr>network := (network s)\<lparr>pending := ps\<rparr>, trace := trace s @ [Recv src p]\<rparr>"
  by (auto simp: recv_package_def recv_def split: option.splits)

text \<open>
  C4. An iteration of \<open>ClientActiveManager.run\<close> that receives an envelope whose code is
  not \<open>Exit\<close>, with payload \<open>s_parameters, gen_time, ...\<close>, and whose training step
  returns, sends one \<open>ParameterUpdate\<close> to rank 0 whose buffers are the serialized model
  of the trained handler and then \<open>gen_time\<close>, unchanged. More generally, whenever
  \<open>on_receive\<close> and the \<open>synchronize\<close> after it both return, the payload had a second
  element and the \<open>ParameterUpdate\<close> that \<open>synchronize\<close> sent has exactly that element
  as its second buffer.
\<close>

theorem ClientActiveManager_timestamp_carried:
  assumes "recv_package (Some 0) (request_model s)
             = (Some (sender, message_code, s_parameters # gen_time # rest), s')"
    and "message_code \<noteq> Exit"
    and "handler s = Some h"
    and "train (epochs s) s_parameters h = Inr h'"
  shows "ClientActiveManager_loop train serialize_model s =
           ClientActiveManager_loop train serialize_model
             (s'\<lparr>handler := Some h',
                 trace := trace s @
                   [Send [] ParameterRequest 0,
                    Recv (Some 0) (sender, message_code, s_parameters # gen_time # rest),
                    Train s_parameters,
                    Send [serialize_model (model h'), gen_time] ParameterUpdate 0],
                 model_gen_time := Some gen_time\<rparr>)
       \<and> (\<forall>payload q q' q''.
             ClientActiveManager_on_receive train sender message_code payload q = Inr q'
           \<and> ClientActiveManager_synchronize serialize_model q' = Inr q''
           \<longrightarrow> (\<exists>p0 t rest' k. payload = p0 # t # rest' \<and> handler q' = Some k
                  \<and> model_gen_time q'' = Some t
                  \<and> trace q'' = trace q @
                       [Train p0, Send [serialize_model (model k), t] ParameterUpdate 0]))"
proof (intro conjI allI impI)
  from recv_package_Some [OF assms(1)] obtain ps where
    s': "s' = (request_model s)\<lparr>network := (network (request_model s))\<lparr>pending := ps\<rparr>,
              trace := trace (request_model s) @
                [Recv (Some 0) (sender, message_code, s_parameters # gen_time # rest)]\<rparr>"
    by blast
  have "ClientActiveManager_on_receive train sender message_code
          (s_parameters # gen_time # rest) s'
        = Inr (s'\<lparr>handler := Some h', trace := trace s' @ [Train s_parameters],
                  model_gen_time := Some gen_time\<rparr>)"
    using assms(3,4)
    by (simp add: ClientActiveManager_on_receive_def Let_def s' request_model_trace)
  moreover have "ClientActiveManager_synchronize serialize_model
          (s'\<lparr>handler := Some h', trace := trace s' @ [Train s_parameters],
              model_gen_time := Some gen_time\<rparr>)
        = Inr (s'\<lparr>handler := Some h',
                  trace := trace s @
                    [Send [] ParameterRequest 0,
                     Recv (Some 0) (sender, message_code, s_parameters # gen_time # rest),
                     Train s_parameters,
                     Send [serialize_model (model h'), gen_time] ParameterUpdate 0],
                  model_gen_time := Some gen_time\<rparr>)"
    by (simp add: ClientActiveManager_synchronize_def Let_def send_def s' request_model_trace)
  ultimately show "ClientActiveManager_loop train serialize_model s =
           ClientActiveManager_loop train serialize_model
             (s'\<lparr>handler := Some h',
                 trace := trace s @
                   [Send [] ParameterRequest 0,
                    Recv (Some 0) (sender, message_code, s_parameters # gen_time # rest),
                    Train s_parameters,
                    Send [serialize_model (model h'), gen_time] ParameterUpdate 0],
                 model_gen_time := Some gen_time\<rparr>)"
    using assms(1,2)
    by (subst ClientActiveManager_loop.simps) simp
next
  fix payload q q' q''
  assume both: "ClientActiveManager_on_receive train sender message_code payload q = Inr q'
           \<and> ClientActiveManager_synchronize serialize_model q' = Inr q''"
  from ClientActiveManager_on_receive_Inr [OF both [THEN conjunct1]]
  obtain p0 t rest' k where q': "payload = p0 # t # rest'"
    "q' = q\<lparr>handler := Some k, trace := trace q @ [Train p0], model_gen_time := Some t\<rparr>"
    by blast
  from ClientActiveManager_synchronize_Inr [OF both [THEN conjunct2]] q'
  show "\<exists>p0 t rest' k. payload = p0 # t # rest' \<and> handler q' = Some k
                  \<and> model_gen_time q'' = Some t
                  \<and> trace q'' = trace q @
                       [Train p0, Send [serialize_model (model k), t] ParameterUpdate 0]"
    by auto
qed

theorem ClientActiveManager_timestamp_carried_witness:
  "ClientActiveManager_run (\<lambda>e p h. Inr (h\<lparr>model := p @ ''+''\<rparr>)) (\<lambda>m. m)
     \<lparr>network = \<lparr>world_size = 2, pending = [(0, ParameterUpdate, [''w'', ''t7''])]\<rparr>,
      handler = Some \<lparr>model = ''m'', client_num_in_total = 0\<rparr>, trace = [],
      epochs = (), model_gen_time = None\<rparr>
   = Blocked
     \<lparr>network = \<lparr>world_size = 2, pending = []\<rparr>,
      handler = Some \<lparr>model = ''w+'', client_num_in_total = 0\<rparr>,
      trace = [Init_connection, Send [] ParameterRequest 0,
               Recv (Some 0) (0, ParameterUpdate, [''w'', ''t7'']),
               Train ''w'', Send [''w+'', ''t7''] ParameterUpdate 0,
               Send [] ParameterRequest 0, Recv_blocked (Some 0)],
      epochs = (), model_gen_time = Some ''t7''\<rparr>"
proof -
  let ?train = "\<lambda>(e :: unit) (p :: string) (h :: string backend_handler).
                  Inr (h\<lparr>model := p @ ''+''\<rparr>) :: error + string backend_handler"
  let ?s = "\<lparr>network = \<lparr>world_size = 2, pending = [(0, ParameterUpdate, [''w'', ''t7''])]\<rparr>,
      handler = Some \<lparr>model = ''m'', client_num_in_total = 0\<rparr>,
      trace = [Init_connection], epochs = (), model_gen_time = None\<rparr>"
  let ?s1 = "\<lparr>network = \<lparr>world_size = 2, pending = []\<rparr>,
      handler = Some \<lparr>model = ''m'', client_num_in_total = 0\<rparr>,
      trace = [Init_connection, Send [] ParameterRequest 0,
               Recv (Some 0) (0, ParameterUpdate, [''w'', ''t7''])],
      epochs = (), model_gen_time = None\<rparr>"
  let ?s3 = "\<lparr>network = \<lparr>world_size = 2, pending = []\<rparr>,
      handler = Some \<lparr>model = ''w+'', client_num_in_total = 0\<rparr>,
      trace = [Init_connection, Send [] ParameterRequest 0,
               Recv (Some 0) (0, ParameterUpdate, [''w'', ''t7'']),
               Train ''w'', Send [''w+'', ''t7''] ParameterUpdate 0],
      epochs = (), model_gen_time = Some ''t7''\<rparr>"
  have recv: "recv_package (Some 0) (request_model ?s)
                = (Some (0, ParameterUpdate, ''w'' # ''t7'' # []), ?s1)"
    by (simp add: recv_package_def recv_def take_package_def request_model_def send_def)
  have code: "ParameterUpdate \<noteq> Exit" by simp
  have h: "handler ?s = Some \<lparr>model = ''m'', client_num_in_total = 0\<rparr>" by simp
  have train: "?train (epochs ?s) ''w'' \<lparr>model = ''m'', client_num_in_total = 0\<rparr>
                 = Inr \<lparr>model = ''w+'', client_num_in_total = 0\<rparr>"
    by simp
  from ClientActiveManager_timestamp_carried [where train = ?train
      and serialize_model = "\<lambda>m. m", OF recv code h train, THEN conjunct1]
  have "ClientActiveManager_loop ?train (\<lambda>m. m) ?s = ClientActiveManager_loop ?train (\<lambda>m. m) ?s3"
    by simp
  then show ?thesis
    by (simp add: ClientActiveManager_run_def init_network_connection_def
        ClientActiveManager_loop.simps [of _ _ ?s3]
        recv_package_def recv_def take_package_def request_model_def send_def)
qed


section \<open>Theorems: the main loops of the connectors\<close>

lemma recv_None:
  "recv None c =
     (case pending (network c) of
        [] \<Rightarrow> (None, c\<lparr>trace := trace c @ [Recv_blocked None]\<rparr>)
      | p # ps \<Rightarrow> (Some p, c\<lparr>network := (network c)\<lparr>pending := ps\<rparr>,
                              trace := trace c @ [Recv None p]\<rparr>))"
  by (simp add: recv_def take_package_def split: list.splits)

lemma ClientConnector_recv_loop_forwards:
  "ClientConnector_recv_loop c =
     Blocked (c\<lparr>network := (network c)\<lparr>pending := []\<rparr>,
                trace := trace c @ map (Recv None) (pending (network c)) @ [Recv_blocked None],
                mq_write := mq_write c @ pending (network c)\<rparr>)"
proof (induction c rule: ClientConnector_recv_loop.induct)
  case (1 c)
  show ?case
  proof (cases "pending (network c)")
    case Nil
    then have "(network c)\<lparr>pending := []\<rparr> = network c" by (cases "network c") simp
    with Nil show ?thesis
      by (subst ClientConnector_recv_loop.simps) (simp add: recv_None)
  next
    case (Cons p ps)
    obtain sender message_code payload where p: "p = (sender, message_code, payload)"
      by (cases p)
    let ?c' = "c\<lparr>network := (network c)\<lparr>pending := ps\<rparr>, trace := trace c @ [Recv None p]\<rparr>"
    have recv: "recv None c = (Some p, ?c')"
      by (simp add: recv_None Cons)
    from "1.IH" [OF recv [symmetric] refl p [symmetric] refl] recv Cons p show ?thesis
      by (subst ClientConnector_recv_loop.simps) simp
  qed
qed

lemma ServerConnector_recv_loop_forwards:
  "ServerConnector_recv_loop c =
     Blocked (c\<lparr>network := (network c)\<lparr>pending := []\<rparr>,
                trace := trace c @ map (Recv None) (pending (network c)) @ [Recv_blocked None],
                mq_write := mq_write c @ pending (network c)\<rparr>)"
proof (induction c rule: ServerConnector_recv_loop.induct)
  case (1 c)
  show ?case
  proof (cases "pending (network c)")
    case Nil
    then have "(network c)\<lparr>pending := []\<rparr> = network c" by (cases "network c") simp
    with Nil show ?thesis
      by (subst ServerConnector_recv_loop.simps) (simp add: recv_package_def recv_None)
  next
    case (Cons p ps)
    obtain sender message_code payload where p: "p = (sender, message_code, payload)"
      by (cases p)
    let ?c' = "c\<lparr>network := (network c)\<lparr>pending := ps\<rparr>, trace := trace c @ [Recv None p]\<rparr>"
    have recv: "recv_package None c = (Some p, ?c')"
      by (simp add: recv_package_def recv_None Cons)
    from "1.IH" [OF recv [symmetric] refl p [symmetric] refl] recv Cons p show ?thesis
      by (subst ServerConnector_recv_loop.simps) simp
  qed
qed

lemma frame_refl: "\<exists>n t. s = s\<lparr>network := n, trace := t\<rparr>"
proof (intro exI)
  show "s = s\<lparr>network := network s, trace := trace s\<rparr>" by simp
qed

lemma frame_trace: "\<exists>n t. s\<lparr>trace := t'\<rparr> = s\<lparr>network := n, trace := t\<rparr>"
proof (intro exI)
  show "s\<lparr>trace := t'\<rparr> = s\<lparr>network := network s, trace := t'\<rparr>" by simp
qed

lemma recv_frame:
  "recv src s = (r, s') \<Longrightarrow> \<exists>n t. s' = s\<lparr>network := n, trace := t\<rparr>"
  by (auto simp: recv_def frame_trace split: option.splits)

lemma recv_identities_frame:
  "(\<forall>st. recv_identities item ranks m s = Inl st \<longrightarrow>
       (\<exists>n t. final st = s\<lparr>network := n, trace := t\<rparr>))
   \<and> (\<forall>m' s'. recv_identities item ranks m s = Inr (m', s') \<longrightarrow>
       (\<exists>n t. s' = s\<lparr>network := n, trace := t\<rparr>))"
proof (induction ranks arbitrary: m s)
  case Nil
  show ?case by (simp add: frame_refl)
next
  case (Cons rank ranks)
  obtain r s1 where recv: "recv (Some rank) s = (r, s1)"
    by (cases "recv (Some rank) s")
  from recv_frame [OF recv] obtain n t where s1: "s1 = s\<lparr>network := n, trace := t\<rparr>"
    by blast
  show ?case
  proof (cases r)
    case None
    with recv s1 show ?thesis by auto
  next
    case (Some p)
    obtain sender message_code content where p: "p = (sender, message_code, content)"
      by (cases p)
    show ?thesis
    proof (cases content)
      case Nil
      with recv s1 Some p show ?thesis by auto
    next
      case (Cons c0 cs)
      show ?thesis
      proof (cases "item c0")
        case (Inl e)
        with recv s1 Some p Cons show ?thesis by auto
      next
        case (Inr v)
        from Cons.IH [of "AList.update rank v m" s1] recv s1 Some p Cons Inr
        show ?thesis by auto
      qed
    qed
  qed
qed


lemma ClientConnector_setup_Inl:
  assumes "ClientConnector_setup item Coordinator' total' c = Inl st"
  shows "\<exists>n t. final st = c\<lparr>network := n, trace := t\<rparr>"
proof (cases "recv_identities item [1 .. world_size (network c) - 1] [] c")
  case (Inl st')
  with assms have "st' = st" by (simp add: ClientConnector_setup_def)
  with recv_identities_frame [of item "[1 .. world_size (network c) - 1]" "[]" c] Inl
  show ?thesis by blast
next
  case (Inr res)
  obtain m c1 where res: "res = (m, c1)" by (cases res)
  from recv_identities_frame [of item "[1 .. world_size (network c) - 1]" "[]" c] Inr res
  have c1: "\<exists>n t. c1 = c\<lparr>network := n, trace := t\<rparr>" by blast
  from assms Inr res obtain e where "st = Raised e c1"
    by (auto simp: ClientConnector_setup_def Let_def split: sum.splits option.splits)
  with c1 show ?thesis by simp
qed

lemma ClientConnector_setup_Inr:
  "ClientConnector_setup item Coordinator' total' c = Inr c' \<Longrightarrow> coordinator c' \<noteq> None"
  by (auto simp: ClientConnector_setup_def Let_def split: sum.splits option.splits)

lemma recv_identities_raises:
  "recv_identities item ranks m s = Inl (Raised e s') \<Longrightarrow>
     e = IndexError \<or> (\<exists>t. item t = Inl e)"
proof (induction ranks arbitrary: m s)
  case Nil
  then show ?case by simp
next
  case (Cons rank ranks)
  then show ?case
    by (auto split: prod.splits option.splits list.splits sum.splits)
qed

lemma ClientConnector_setup_raises:
  assumes "ClientConnector_setup item Coordinator' total' c = Inl (Raised e s')"
  shows "e = IndexError \<or> (\<exists>t. item t = Inl e) \<or> (\<exists>m. Coordinator' m = Inl e)"
proof (cases "recv_identities item [1 .. world_size (network c) - 1] [] c")
  case (Inl st)
  with assms have "st = Raised e s'" by (simp add: ClientConnector_setup_def)
  with recv_identities_raises [of item _ "[]" c e s'] Inl show ?thesis by blast
next
  case (Inr res)
  with assms show ?thesis
    by (auto simp: ClientConnector_setup_def Let_def split: sum.splits option.splits prod.splits)
qed

lemma ClientConnector_main_loop_no_violation:
  assumes "\<forall>t. item t \<noteq> Inl LifecycleViolation"
    and "\<forall>m. Coordinator' m \<noteq> Inl LifecycleViolation"
  shows "ClientConnector_main_loop item Coordinator' total' c \<noteq> Raised LifecycleViolation s"
proof (cases "ClientConnector_setup item Coordinator' total' c")
  case (Inl st)
  show ?thesis
  proof
    assume "ClientConnector_main_loop item Coordinator' total' c = Raised LifecycleViolation s"
    with Inl have "ClientConnector_setup item Coordinator' total' c
        = Inl (Raised LifecycleViolation s)"
      by (simp add: ClientConnector_main_loop_def)
    from ClientConnector_setup_raises [OF this] assms show False by auto
  qed
next
  case (Inr c')
  then show ?thesis
    by (simp add: ClientConnector_main_loop_def ClientConnector_recv_loop_forwards)
qed

text \<open>
  C5, as the claim states it, fails: no lifecycle check exists. \<open>main_loop\<close> called on a
  connector on which \<open>setup\<close> was never called does not fail with \<open>LifecycleViolation\<close>:
  \<open>ServerConnector.main_loop\<close> starts the queue thread and forwards what it receives,
  and \<open>ClientConnector.main_loop\<close> performs the handshake itself and then does the same.
\<close>

theorem main_loop_without_setup:
  "ServerConnector_main_loop
     \<lparr>network = \<lparr>world_size = 2, pending = [(0, ParameterUpdate, [[5 :: int]])]\<rparr>,
      handler = (None :: unit backend_handler option), trace = [],
      mq_read = [], mq_write = [], watching_queue = False\<rparr>
   = Blocked
     \<lparr>network = \<lparr>world_size = 2, pending = []\<rparr>, handler = None,
      trace = [Recv None (0, ParameterUpdate, [[5]]), Recv_blocked None],
      mq_read = [], mq_write = [(0, ParameterUpdate, [[5]])], watching_queue = True\<rparr>
   \<and> ClientConnector_main_loop (\<lambda>t. case t of [x] \<Rightarrow> Inr x | _ \<Rightarrow> Inl ValueError) build total
     \<lparr>network = \<lparr>world_size = 2,
                  pending = [(1, Control 0, [[10]]), (1, ParameterUpdate, [[5 :: int]])]\<rparr>,
      handler = (None :: unit backend_handler option), trace = [],
      mq_read = [], mq_write = [], watching_queue = False, coordinator = None\<rparr>
   = Blocked
     \<lparr>network = \<lparr>world_size = 2, pending = []\<rparr>, handler = None,
      trace = [Recv (Some 1) (1, Control 0, [[10]]), Recv None (1, ParameterUpdate, [[5]]),
               Recv_blocked None],
      mq_read = [], mq_write = [(1, ParameterUpdate, [[5]])], watching_queue = True,
      coordinator = Some \<lparr>rank_ids = [(1, [10])]\<rparr>\<rparr>"
  by (simp add: ServerConnector_main_loop_def ServerConnector_recv_loop_forwards
      ClientConnector_main_loop_def ClientConnector_recv_loop_forwards
      ClientConnector_setup_def recv_def take_package_def build_def upto.simps)

text \<open>
  C5, amended. \<open>ClientConnector.main_loop\<close> runs \<open>setup\<close> itself, first: when \<open>setup\<close>
  does not return (a receive blocks, or it raises), \<open>main_loop\<close> ends as \<open>setup\<close> did,
  with nothing forwarded, the queue thread not started and the coordinator as it was;
  when \<open>setup\<close> returns, the coordinator is built, and only then the queue thread is
  started and every pending package is put on the write queue, in arrival order, until
  the receive blocks. \<open>ServerConnector.main_loop\<close> runs no handshake and makes no check:
  it starts the queue thread and forwards in the same way, whatever the state of the
  connector. Neither ever fails with \<open>LifecycleViolation\<close> (unless \<open>item\<close> or the
  constructor of the coordinator, which are not the connector's, raise it).
\<close>

theorem main_loop_runs_setup_first:
  "(\<forall>st. ClientConnector_setup item Coordinator' total' c = Inl st \<longrightarrow>
        ClientConnector_main_loop item Coordinator' total' c = st
      \<and> mq_write (final st) = mq_write c
      \<and> watching_queue (final st) = watching_queue c
      \<and> coordinator (final st) = coordinator c)
   \<and> (\<forall>c'. ClientConnector_setup item Coordinator' total' c = Inr c' \<longrightarrow>
        coordinator c' \<noteq> None
      \<and> ClientConnector_main_loop item Coordinator' total' c =
          Blocked (c'\<lparr>network := (network c')\<lparr>pending := []\<rparr>,
                     trace := trace c' @ map (Recv None) (pending (network c'))
                                @ [Recv_blocked None],
                     mq_write := mq_write c' @ pending (network c'),
                     watching_queue := True\<rparr>))
   \<and> ServerConnector_main_loop d =
        Blocked (d\<lparr>network := (network d)\<lparr>pending := []\<rparr>,
                   trace := trace d @ map (Recv None) (pending (network d))
                              @ [Recv_blocked None],
                   mq_write := mq_write d @ pending (network d),
                   watching_queue := True\<rparr>)
   \<and> ((\<forall>t. item t \<noteq> Inl LifecycleViolation)
        \<and> (\<forall>m. Coordinator' m \<noteq> Inl LifecycleViolation) \<longrightarrow>
      (\<forall>s. ClientConnector_main_loop item Coordinator' total' c
             \<noteq> Raised LifecycleViolation s))"
proof (intro conjI allI impI)
  fix st assume st: "ClientConnector_setup item Coordinator' total' c = Inl st"
  then show "ClientConnector_main_loop item Coordinator' total' c = st"
    by (simp add: ClientConnector_main_loop_def)
  from ClientConnector_setup_Inl [OF st] obtain n t where
    "final st = c\<lparr>network := n, trace := t\<rparr>"
    by blast
  then show "mq_write (final st) = mq_write c"
    and "watching_queue (final st) = watching_queue c"
    and "coordinator (final st) = coordinator c"
    by simp_all
next
  fix c' assume c': "ClientConnector_setup item Coordinator' total' c = Inr c'"
  then show "coordinator c' \<noteq> None" by (rule ClientConnector_setup_Inr)
  from c' show "ClientConnector_main_loop item Coordinator' total' c =
          Blocked (c'\<lparr>network := (network c')\<lparr>pending := []\<rparr>,
                     trace := trace c' @ map (Recv None) (pending (network c'))
                                @ [Recv_blocked None],
                     mq_write := mq_write c' @ pending (network c'),
                     watching_queue := True\<rparr>)"
    by (simp add: ClientConnector_main_loop_def ClientConnector_recv_loop_forwards)
next
  show "ServerConnector_main_loop d =
        Blocked (d\<lparr>network := (network d)\<lparr>pending := []\<rparr>,
                   trace := trace d @ map (Recv None) (pending (network d))
                              @ [Recv_blocked None],
                   mq_write := mq_write d @ pending (network d),
                   watching_queue := True\<rparr>)"
    by (simp add: ServerConnector_main_loop_def ServerConnector_recv_loop_forwards)
next
  fix s
  assume "(\<forall>t. item t \<noteq> Inl LifecycleViolation)
        \<and> (\<forall>m. Coordinator' m \<noteq> Inl LifecycleViolation)"
  then show "ClientConnector_main_loop item Coordinator' total' c \<noteq> Raised LifecycleViolation s"
    by (intro ClientConnector_main_loop_no_violation) simp_all
qed

theorem main_loop_runs_setup_first_witness:
  "ClientConnector_main_loop (\<lambda>t. case t of [x] \<Rightarrow> Inr x | _ \<Rightarrow> Inl ValueError) build total
     \<lparr>network = \<lparr>world_size = 3,
                  pending = [(1, Control 0, [[10]]), (1, ParameterUpdate, [[5 :: int]])]\<rparr>,
      handler = (None :: unit backend_handler option), trace = [],
      mq_read = [], mq_write = [], watching_queue = False, coordinator = None\<rparr>
   = Blocked
     \<lparr>network = \<lparr>world_size = 3,
                  pending = [(1, ParameterUpdate, [[5]])]\<rparr>,
      handler = None,
      trace = [Recv (Some 1) (1, Control 0, [[10]]), Recv_blocked (Some 2)],
      mq_read = [], mq_write = [], watching_queue = False, coordinator = None\<rparr>
   \<and> ClientConnector_main_loop (\<lambda>t. case t of [x] \<Rightarrow> Inr x | _ \<Rightarrow> Inl ValueError) build total
     \<lparr>network = \<lparr>world_size = 2,
                  pending = [(1, Control 0, [[10]]), (1, ParameterUpdate, [[5 :: int]])]\<rparr>,
      handler = (None :: unit backend_handler option), trace = [],
      mq_read = [], mq_write = [], watching_queue = False, coordinator = None\<rparr>
   = Blocked
     \<lparr>network = \<lparr>world_size = 2, pending = []\<rparr>, handler = None,
      trace = [Recv (Some 1) (1, Control 0, [[10]]), Recv None (1, ParameterUpdate, [[5]]),
               Recv_blocked None],
      mq_read = [], mq_write = [(1, ParameterUpdate, [[5]])], watching_queue = True,
      coordinator = Some \<lparr>rank_ids = [(1, [10])]\<rparr>\<rparr>
   \<and> ClientConnector_main_loop (\<lambda>t. case t of [x] \<Rightarrow> Inr x | _ \<Rightarrow> Inl ValueError) build total
     \<lparr>network = \<lparr>world_size = 2,
                  pending = [(1, Control 0, [[10]]), (1, ParameterUpdate, [[5 :: int]])]\<rparr>,
      handler = (None :: unit backend_handler option), trace = [],
      mq_read = [], mq_write = [], watching_queue = False, coordinator = None\<rparr>
   \<noteq> Raised LifecycleViolation
     \<lparr>network = \<lparr>world_size = 2, pending = []\<rparr>, handler = None, trace = [],
      mq_read = [], mq_write = [], watching_queue = False, coordinator = None\<rparr>"
proof -
  let ?item = "\<lambda>t :: int list. case t of [x] \<Rightarrow> Inr x | _ \<Rightarrow> Inl ValueError"
  let ?c3 = "\<lparr>network = \<lparr>world_size = 3,
                  pending = [(1, Control 0, [[10]]), (1, ParameterUpdate, [[5 :: int]])]\<rparr>,
      handler = (None :: unit backend_handler option), trace = [],
      mq_read = [], mq_write = [], watching_queue = False,
      coordinator = (None :: Coordinator option)\<rparr>"
  let ?c2 = "\<lparr>network = \<lparr>world_size = 2,
                  pending = [(1, Control 0, [[10]]), (1, ParameterUpdate, [[5 :: int]])]\<rparr>,
      handler = (None :: unit backend_handler option), trace = [],
      mq_read = [], mq_write = [], watching_queue = False,
      coordinator = (None :: Coordinator option)\<rparr>"
  have blocked: "ClientConnector_setup ?item build total ?c3
      = Inl (Blocked \<lparr>network = \<lparr>world_size = 3, pending = [(1, ParameterUpdate, [[5]])]\<rparr>,
          handler = None,
          trace = [Recv (Some 1) (1, Control 0, [[10]]), Recv_blocked (Some 2)],
          mq_read = [], mq_write = [], watching_queue = False, coordinator = None\<rparr>)"
    by (simp add: ClientConnector_setup_def recv_def take_package_def upto.simps)
  have returned: "ClientConnector_setup ?item build total ?c2
      = Inr \<lparr>network = \<lparr>world_size = 2, pending = [(1, ParameterUpdate, [[5]])]\<rparr>,
          handler = None, trace = [Recv (Some 1) (1, Control 0, [[10]])],
          mq_read = [], mq_write = [], watching_queue = False,
          coordinator = Some \<lparr>rank_ids = [(1, [10])]\<rparr>\<rparr>"
    by (simp add: ClientConnector_setup_def recv_def take_package_def build_def upto.simps)
  have item: "\<forall>t. ?item t \<noteq> Inl LifecycleViolation"
    by (simp split: list.splits)
  have constructor: "\<forall>m. build m \<noteq> Inl LifecycleViolation"
    by (simp add: build_def)
  note inst3 = main_loop_runs_setup_first [where item = ?item and Coordinator' = build
      and total' = total and c = ?c3]
  note inst2 = main_loop_runs_setup_first [where item = ?item and Coordinator' = build
      and total' = total and c = ?c2]
  from inst3 [THEN conjunct1, rule_format, OF blocked]
    inst2 [THEN conjunct2, THEN conjunct1, rule_format, OF returned]
    inst2 [THEN conjunct2, THEN conjunct2, THEN conjunct2, rule_format, OF conjI [OF item constructor]]
  show ?thesis by simp
qed

end
